theory Spec2Isabelle
  imports Complex_Main
begin

section \<open>Synchronization and PLL routines of \<open>sk_dsp_comm/synchronization.py\<close>\<close>

text \<open>
  Conventions of the embedding.
  \<^item> A Python or numpy float is a \<open>real\<close> and a complex number a \<open>complex\<close>: overflow
    and signed zeros of IEEE arithmetic are not modelled, nor is rounding outside
    the oscillator. In the oscillator, where floats carry the integers of the phase
    accumulator, the result of every float operation is rounded by \<open>float64\<close> to the
    53 bits of the significand; the arguments of its methods are taken to be floats.
  \<^item> Python integers are \<open>int\<close>; array indices and the contents of unsigned numpy
    scalars are \<open>nat\<close>. The conversion of a float to an unsigned numpy type is the one
    of numpy's builds for x86-64, where it wraps only within the range of a signed
    machine integer.
  \<^item> Every \<open>raise\<close> of the source, and every exception that Python itself raises on a
    path of the source (dividing Python numbers by zero, using an unbound local,
    combining arrays of different shapes, indexing out of range, \<open>float ^ int\<close>),
    is a branch \<open>Inl e\<close> of the model.
  \<^item> numpy does not raise when it divides by zero: it goes on with \<open>inf\<close> or \<open>nan\<close>.
    The reals have no such values, so where the source reaches such a division the
    model either returns the value \<open>NonFin\<close> of the type \<open>fl\<close> (where the source only
    adds and multiplies it afterwards), gives the result of converting it (in the
    constructor of the oscillator), or stops with \<open>Inl NonFinite\<close>.
  \<^item> \<open>print\<close>, \<open>log.error\<close> and \<open>warnings.warn\<close> change no value and are left out; the
    comments say where they stand.
\<close>

subsection \<open>Errors and numeric helpers\<close>

datatype error =
    ZeroDivisionError
  | TypeError
  | ValueError
  | IndexError
  | UnboundLocalError
  | NotImplementedError
  | NonFinite

text \<open>\<open>np.rint\<close>: the nearest integer, a tie going to the even neighbour.\<close>

definition rint :: "real \<Rightarrow> int" where
  "rint x =
     (let f = \<lfloor>x\<rfloor>; d = x - of_int f
      in if d < 1/2 then f
         else if 1/2 < d then f + 1
         else if even f then f else f + 1)"

text \<open>
  The float64 nearest to a real: the multiple of the unit in the last place of a
  significand of 53 bits that is nearest, a tie going to the even significand. The
  range of the exponent is not bounded (no overflow, no subnormal numbers).
\<close>

definition float64 :: "real \<Rightarrow> real" where
  "float64 x =
     (if x = 0 then 0
      else let ex = \<lfloor>log 2 \<bar>x\<bar>\<rfloor>
           in of_int (rint (x * 2 powr of_int (52 - ex))) * 2 powr of_int (ex - 52))"

text \<open>A C cast of a float to an integer drops the fraction (towards zero).\<close>

definition trunc :: "real \<Rightarrow> int" where
  "trunc x = (if 0 \<le> x then \<lfloor>x\<rfloor> else \<lceil>x\<rceil>)"

text \<open>
  The conversion of a float to a signed machine integer of \<open>b\<close> bits on x86-64: the
  fraction is dropped, and a value that does not fit gives the least integer.
\<close>

definition to_signed :: "nat \<Rightarrow> real \<Rightarrow> int" where
  "to_signed b x =
     (if - (2 ^ (b - 1)) \<le> trunc x \<and> trunc x < 2 ^ (b - 1) then trunc x
      else - (2 ^ (b - 1)))"

text \<open>
  \<open>self.dtype(x)\<close> for a float \<open>x\<close> and an unsigned type of \<open>w\<close> bits. C leaves the cast
  open where the value is outside the type; the code compiled into numpy converts to
  a signed integer (of 32 bits for the types of 8 and 16 bits, of 64 bits for the
  others) and keeps the low \<open>w\<close> bits, so that it wraps modulo \<open>2 ^ w\<close> within the range
  of that integer and gives 0 beyond. For 64 bits a float from \<open>2 ^ 63\<close> on is
  converted less \<open>2 ^ 63\<close>, and the top bit is flipped.
\<close>

definition dtype_of_float :: "nat \<Rightarrow> real \<Rightarrow> nat" where
  "dtype_of_float w x =
     (if w < 32 then nat (to_signed 32 x mod 2 ^ w)
      else if w < 64 then nat (to_signed 64 x mod 2 ^ w)
      else if x < 2 ^ 63 then nat (to_signed 64 x mod 2 ^ 64)
      else nat ((to_signed 64 (x - 2 ^ 63) + 2 ^ 63) mod 2 ^ 64))"

text \<open>
  The same conversion of \<open>+inf\<close> (\<open>True\<close>) and of \<open>-inf\<close> or \<open>nan\<close> (\<open>False\<close>): none fits
  the signed integer.
\<close>

definition dtype_of_nonfinite :: "nat \<Rightarrow> bool \<Rightarrow> nat" where
  "dtype_of_nonfinite w plus_inf = (if w < 64 \<or> plus_inf then 0 else 2 ^ 63)"

text \<open>\<open>self.dtype(k)\<close> for an integer \<open>k\<close>.\<close>

definition dtype_of_int :: "nat \<Rightarrow> int \<Rightarrow> nat" where
  "dtype_of_int w k = nat (k mod 2 ^ w)"

text \<open>\<open>np.mod(x, m)\<close> on floats, for \<open>m > 0\<close>: the result has the sign of \<open>m\<close>.\<close>

definition np_mod :: "real \<Rightarrow> real \<Rightarrow> real" where
  "np_mod x m = x - m * of_int \<lfloor>x / m\<rfloor>"

subsection \<open>The numerically controlled oscillator (class \<open>NCO\<close>)\<close>

record NCO =
  n_bits :: int
  dtype :: nat            \<comment> \<open>width in bits of the numpy type chosen by the constructor\<close>
  max_bits_const :: real  \<comment> \<open>\<open>2 ** n_bits\<close>\<close>
  fcenter_hat :: real
  fs :: real
  delta_k :: nat
  kc :: real
  k_hat :: nat
  k_old :: nat

text \<open>\<open>NCO.__max_bits_const__\<close>: \<open>2 ** n_bits\<close>, a float when \<open>n_bits\<close> is negative.\<close>

definition max_bits_const_of :: "int \<Rightarrow> real" where
  "max_bits_const_of n = (if 0 \<le> n then 2 ^ nat n else 1 / 2 ^ nat (- n))"

text \<open>
  \<open>NCO.__init__\<close>, for floats \<open>fcenter\<close>, \<open>fs\<close> and \<open>kc\<close> (with a Python integer for
  \<open>fcenter\<close>, \<open>np.rint\<close> raises \<open>TypeError\<close> when the product with \<open>2 ** n_bits\<close> does not
  fit 64 bits; the model does not cover that call). The quotient
  \<open>np.rint(fcenter * max_bits_const) / fs\<close> is a numpy division: at \<open>fs = 0\<close> it is
  \<open>+inf\<close>, \<open>-inf\<close> or \<open>nan\<close> with the sign of the dividend, and is converted as such.
  The initial state is an unsigned numpy integer, as annotated, and the conversion
  reduces it to the width of the type.
\<close>

definition NCO_init :: "real \<Rightarrow> real \<Rightarrow> real \<Rightarrow> nat \<Rightarrow> int \<Rightarrow> error + NCO" where
  "NCO_init fcenter fs_in kc_in state_init_k nb =
     (if 64 < nb then Inl NotImplementedError
      else
        let w = (if nb \<le> 8 then 8 else if nb \<le> 16 then 16 else if nb \<le> 32 then 32 else 64);
            mbc = max_bits_const_of nb;
            r = rint (float64 (fcenter * mbc))
        in Inr \<lparr> n_bits = nb, dtype = w, max_bits_const = mbc,
                   fcenter_hat = fcenter, fs = fs_in,
                   delta_k = (if fs_in = 0 then dtype_of_nonfinite w (0 < r)
                              else dtype_of_float w (float64 (of_int r / fs_in))),
                   kc = kc_in,
                   k_hat = dtype_of_int w (int state_init_k),
                   k_old = dtype_of_int w 0 \<rparr>)"

text \<open>\<open>NCO.update\<close>: the sum is formed in floats, from left to right.\<close>

definition NCO_update :: "real \<Rightarrow> NCO \<Rightarrow> NCO" where
  "NCO_update e_in s =
     s \<lparr> k_old := k_hat s,
         k_hat := dtype_of_float (dtype s)
                    (of_int (rint (float64
                       (float64 (float64 (real (k_hat s)) + float64 (real (delta_k s)))
                        + float64 (float64 (kc s * max_bits_const s) * e_in))))) \<rparr>"

text \<open>\<open>NCO.out_sin\<close>, \<open>NCO.out_exp\<close>, \<open>NCO.out_square\<close>.\<close>

definition NCO_out_sin :: "NCO \<Rightarrow> real" where
  "NCO_out_sin s = sin (2 * pi * float64 (real (k_hat s)) / max_bits_const s)"

definition NCO_out_exp :: "NCO \<Rightarrow> complex" where
  "NCO_out_exp s = cis (2 * pi * float64 (real (k_hat s)) / max_bits_const s)"

text \<open>
  \<open>max_bits_const >> 1\<close> is defined for an integer only: a negative \<open>n_bits\<close> makes
  \<open>max_bits_const\<close> a float and the shift a \<open>TypeError\<close>.
\<close>

definition half_scale :: "NCO \<Rightarrow> error + nat" where
  "half_scale s =
     (if n_bits s < 0 then Inl TypeError
      else Inr (dtype_of_int (dtype s) (2 ^ nat (n_bits s) div 2)))"

definition NCO_out_square :: "NCO \<Rightarrow> error + real" where
  "NCO_out_square s =
     (case half_scale s of
        Inl e \<Rightarrow> Inl e
      | Inr h \<Rightarrow> Inr (if 0 \<le> k_hat s \<and> k_hat s < h then 1 else - 1))"

text \<open>
  \<open>NCO.pos_edge\<close>. The argument is \<open>None\<close> when omitted. The source selects the default
  with \<open>thresh if thresh else ...\<close>, so a threshold that is false as a Python value
  (zero) is replaced as well.
\<close>

definition NCO_pos_edge :: "real option \<Rightarrow> NCO \<Rightarrow> error + bool" where
  "NCO_pos_edge thresh s =
     (let delta_theta = float64 (float64 (real (k_old s)) - float64 (real (k_hat s)))
      in case thresh of
           Some t \<Rightarrow>
             (if t \<noteq> 0 then Inr (t < delta_theta)
              else case half_scale s of
                     Inl e \<Rightarrow> Inl e
                   | Inr h \<Rightarrow> Inr (float64 (real h) < delta_theta))
         | None \<Rightarrow>
             (case half_scale s of
                Inl e \<Rightarrow> Inl e
              | Inr h \<Rightarrow> Inr (float64 (real h) < delta_theta)))"

text \<open>
  \<open>NCO.set_fcenter\<close>. Here the quotient is formed of Python numbers, so \<open>fs = 0\<close>
  raises.
\<close>

definition NCO_set_fcenter :: "real \<Rightarrow> NCO \<Rightarrow> error + NCO" where
  "NCO_set_fcenter fcenter_new s =
     (if fs s = 0 then Inl ZeroDivisionError
      else
        let dk = dtype_of_float (dtype s)
                   (of_int (rint (float64 (float64 (fcenter_new * max_bits_const s) / fs s))))
        in Inr (s \<lparr> delta_k := dk,
                    fcenter_hat := float64 (float64 (float64 (real dk) / max_bits_const s)
                                            * fs s) \<rparr>))"

text \<open>
  A sequence of calls of the two mutating methods on one oscillator, stopping at the
  first call that raises.
\<close>

datatype NCO_call = Update real | Set_fcenter real

fun NCO_calls :: "NCO \<Rightarrow> NCO_call list \<Rightarrow> error + NCO" where
  "NCO_calls s [] = Inr s"
| "NCO_calls s (Update e # cs) = NCO_calls (NCO_update e s) cs"
| "NCO_calls s (Set_fcenter f # cs) =
     (case NCO_set_fcenter f s of Inl e \<Rightarrow> Inl e | Inr s' \<Rightarrow> NCO_calls s' cs)"


subsection \<open>Values that may fail to be finite\<close>

text \<open>
  The result of a numpy division whose divisor may be zero: \<open>Fin x\<close> is the finite
  value \<open>x\<close>, \<open>NonFin\<close> is \<open>inf\<close> or \<open>nan\<close>. Adding or multiplying with a value that
  is not finite never gives a finite value again.
\<close>

datatype 'a fl = Fin 'a | NonFin

instantiation fl :: (plus) plus
begin

fun plus_fl :: "'a fl \<Rightarrow> 'a fl \<Rightarrow> 'a fl" where
  "plus_fl (Fin a) (Fin b) = Fin (a + b)"
| "plus_fl _ _ = NonFin"

instance ..

end

instantiation fl :: (times) times
begin

fun times_fl :: "'a fl \<Rightarrow> 'a fl \<Rightarrow> 'a fl" where
  "times_fl (Fin a) (Fin b) = Fin (a * b)"
| "times_fl _ _ = NonFin"

instance ..

end

text \<open>A numpy quotient of two finite floats.\<close>

definition np_divide :: "real \<Rightarrow> real \<Rightarrow> real fl" where
  "np_divide a b = (if b = 0 then NonFin else Fin (a / b))"

subsection \<open>Accumulator and loop filters\<close>

text \<open>
  The classes are used with whatever supports \<open>+\<close> and \<open>*\<close>, so the state is of any
  such type: \<open>real\<close> in the PLL, \<open>real fl\<close> in the AFC (behind the discriminator).
\<close>

record 'a Accumulator =
  m_state :: 'a

definition Accumulator_init :: "'a \<Rightarrow> 'a Accumulator" where
  "Accumulator_init state0 = \<lparr> m_state = state0 \<rparr>"

definition Accumulator_update :: "'a::plus \<Rightarrow> 'a Accumulator \<Rightarrow> 'a Accumulator" where
  "Accumulator_update x_in a = a \<lparr> m_state := m_state a + x_in \<rparr>"

definition Accumulator_out :: "'a Accumulator \<Rightarrow> 'a" where
  "Accumulator_out a = m_state a"

text \<open>
  The fields \<open>accum\<close> and \<open>alpha2\<close> of \<open>LoopFilter1\<close> are written \<open>accum1\<close> and
  \<open>alpha2_1\<close>, apart from those of \<open>LoopFilter2\<close>.
\<close>

record 'a LoopFilter1 =
  accum1 :: "'a Accumulator"
  alpha2_1 :: 'a

definition LoopFilter1_init :: "'a \<Rightarrow> 'a \<Rightarrow> 'a LoopFilter1" where
  "LoopFilter1_init a2 state0 = \<lparr> accum1 = Accumulator_init state0, alpha2_1 = a2 \<rparr>"

text \<open>\<open>LoopFilter1.filter\<close>: the output and the filter after the call.\<close>

definition LoopFilter1_filter ::
  "'a::{plus,times} \<Rightarrow> 'a LoopFilter1 \<Rightarrow> 'a \<times> 'a LoopFilter1" where
  "LoopFilter1_filter x f =
     (let acc = Accumulator_update x (accum1 f);
          y = alpha2_1 f * Accumulator_out acc
      in (y, f \<lparr> accum1 := acc \<rparr>))"

record 'a LoopFilter2 =
  accum :: "'a Accumulator"
  alpha1 :: 'a
  alpha2 :: 'a

definition LoopFilter2_init :: "'a \<Rightarrow> 'a \<Rightarrow> 'a \<Rightarrow> 'a LoopFilter2" where
  "LoopFilter2_init a1 a2 state0 =
     \<lparr> accum = Accumulator_init state0, alpha1 = a1, alpha2 = a2 \<rparr>"

text \<open>\<open>LoopFilter2.filter\<close>: the output and the filter after the call.\<close>

definition LoopFilter2_filter ::
  "'a::{plus,times} \<Rightarrow> 'a LoopFilter2 \<Rightarrow> 'a \<times> 'a LoopFilter2" where
  "LoopFilter2_filter x f =
     (let acc = Accumulator_update x (accum f);
          y = alpha1 f * x + alpha2 f * Accumulator_out acc
      in (y, f \<lparr> accum := acc \<rparr>))"

text \<open>
  \<open>loop_parms1\<close>. The quotient \<open>Bn/fs\<close> is of Python numbers and raises at \<open>fs = 0\<close>;
  \<open>k2\<close> comes from \<open>np.exp\<close>, so the last quotient is numpy's.
\<close>

definition loop_parms1 :: "real \<Rightarrow> real \<Rightarrow> real \<Rightarrow> bool \<Rightarrow> error + real fl" where
  "loop_parms1 Bn kd fs_in bn_mode =
     (if fs_in = 0 then Inl ZeroDivisionError
      else
        let k2 = (if bn_mode then 1 - exp (- 4 * Bn / fs_in)
                  else 1 - exp (- 2 * pi * Bn / fs_in));
            kc0 = 1
        in Inr (np_divide k2 (kc0 * kd)))"

text \<open>\<open>loop_parms2\<close>: all quotients are of Python numbers.\<close>

definition loop_parms2 :: "real \<Rightarrow> real \<Rightarrow> real \<Rightarrow> real \<Rightarrow> error + real \<times> real" where
  "loop_parms2 bn zeta kd fs_in =
     (if zeta = 0 \<or> zeta + 1 / (4 * zeta) = 0 then Inl ZeroDivisionError
      else
        let wn = 2 * bn * (1 / (zeta + 1 / (4 * zeta)))
        in if fs_in = 0 then Inl ZeroDivisionError
           else
             let k1 = 2 * zeta * wn / fs_in + 1 / 2 * (wn / fs_in)\<^sup>2;
                 k2 = (wn / fs_in)\<^sup>2;
                 kc0 = 1
             in if kc0 * kd = 0 then Inl ZeroDivisionError
                else Inr (k1 / (kc0 * kd), k2 / (kc0 * kd)))"

subsection \<open>The stateful discriminator (class \<open>Discriminator\<close>)\<close>

record Discriminator =
  f_clk :: real
  state :: complex

definition Discriminator_init :: "real \<Rightarrow> complex \<Rightarrow> Discriminator" where
  "Discriminator_init f_clk_in state0 = \<lparr> f_clk = f_clk_in, state = state0 \<rparr>"

text \<open>
  \<open>Discriminator.update\<close>: the division by the squared envelope is numpy's, and is
  not finite at \<open>x_in = 0\<close>. (Dividing by \<open>2 pi\<close> is written as multiplying by
  \<open>1 / (2 pi)\<close>.)
\<close>

definition Discriminator_update ::
  "complex \<Rightarrow> bool \<Rightarrow> Discriminator \<Rightarrow> real fl \<times> Discriminator" where
  "Discriminator_update x_in f_clk_units d =
     (let der_x_in = x_in - state d;
          disdata = np_divide (Re x_in * Im der_x_in - Im x_in * Re der_x_in)
                              ((cmod x_in)\<^sup>2);
          d' = d \<lparr> state := x_in \<rparr>
      in if f_clk_units then (disdata * Fin (f_clk d / (2 * pi)), d')
         else (disdata * Fin (1 / (2 * pi)), d'))"

subsection \<open>The pre-built loops \<open>cbb_pll\<close> and \<open>cbb_afc\<close>\<close>

text \<open>
  The clock event loop of \<open>cbb_pll\<close>, one input sample after the other; the three
  lists are the arrays \<open>y_d_pll\<close>, \<open>y_lf_pll\<close> and \<open>x_NCO_pll\<close>.
\<close>

fun cbb_pll_loop ::
  "bool \<Rightarrow> real \<Rightarrow> complex list \<Rightarrow> NCO \<Rightarrow> real LoopFilter2 \<Rightarrow> real
   \<Rightarrow> real list \<times> real list \<times> complex list" where
  "cbb_pll_loop pll_open k_d [] PLL_NCO pll_lf y_lf_pll_old = ([], [], [])"
| "cbb_pll_loop pll_open k_d (x # xs) PLL_NCO pll_lf y_lf_pll_old =
     (let nco' = (if pll_open then NCO_update 0 PLL_NCO
                  else NCO_update y_lf_pll_old PLL_NCO);
          x_NCO = NCO_out_exp nco';
          y_d = Im (x * cnj x_NCO);
          (y_lf, lf') = LoopFilter2_filter (k_d * y_d) pll_lf;
          (y_ds, y_lfs, x_NCOs) = cbb_pll_loop pll_open k_d xs nco' lf' y_lf
      in (y_d # y_ds, y_lf # y_lfs, x_NCO # x_NCOs))"

definition cbb_pll ::
  "complex list \<Rightarrow> real \<Rightarrow> real \<Rightarrow> real \<Rightarrow> real \<Rightarrow> bool
   \<Rightarrow> error + real list \<times> real list \<times> complex list" where
  "cbb_pll x_in_pll bn_pll k_d fc_pll f_clk_pll pll_open =
     (case NCO_init fc_pll f_clk_pll 1 0 32 of
        Inl e \<Rightarrow> Inl e
      | Inr PLL_NCO \<Rightarrow>
          (case loop_parms2 bn_pll (707 / 1000) (2 * pi) f_clk_pll of
             Inl e \<Rightarrow> Inl e
           | Inr (alpha1_pll, alpha2_pll) \<Rightarrow>
               Inr (cbb_pll_loop pll_open k_d x_in_pll PLL_NCO
                      (LoopFilter2_init alpha1_pll alpha2_pll 0) 0)))"

text \<open>
  The clock event loop of \<open>cbb_afc\<close>; the four lists are the arrays \<open>y_d_afc\<close>,
  \<open>y_lf_afc\<close>, \<open>x_out_afc\<close> and \<open>x_NCO_afc\<close>. In the closed loop the filter output
  goes into \<open>NCO.update\<close>: the first quotient \<open>y_lf_afc_old / f_clk_afc\<close> is of
  Python numbers, and once the filter output is not finite the model stops.
\<close>

fun cbb_afc_loop ::
  "bool \<Rightarrow> real \<Rightarrow> complex list \<Rightarrow> NCO \<Rightarrow> Discriminator \<Rightarrow> real fl LoopFilter1 \<Rightarrow> real fl
   \<Rightarrow> error + real fl list \<times> real fl list \<times> complex list \<times> complex list" where
  "cbb_afc_loop afc_open f_clk_afc [] AFC_NCO discrim_afc afc_lf y_lf_afc_old =
     Inr ([], [], [], [])"
| "cbb_afc_loop afc_open f_clk_afc (x # xs) AFC_NCO discrim_afc afc_lf y_lf_afc_old =
     (case (if afc_open then Inr (NCO_update 0 AFC_NCO)
            else if f_clk_afc = 0 then Inl ZeroDivisionError
            else case y_lf_afc_old of
                   NonFin \<Rightarrow> Inl NonFinite
                 | Fin y \<Rightarrow> Inr (NCO_update (y / f_clk_afc) AFC_NCO)) of
        Inl e \<Rightarrow> Inl e
      | Inr nco' \<Rightarrow>
          (let x_NCO = NCO_out_exp nco';
               x_out = x * cnj x_NCO;
               (y_d, discrim') = Discriminator_update x_out True discrim_afc;
               (y_lf, lf') = LoopFilter1_filter y_d afc_lf
           in case cbb_afc_loop afc_open f_clk_afc xs nco' discrim' lf' y_lf of
                Inl e \<Rightarrow> Inl e
              | Inr (y_ds, y_lfs, x_outs, x_NCOs) \<Rightarrow>
                  Inr (y_d # y_ds, y_lf # y_lfs, x_out # x_outs, x_NCO # x_NCOs)))"

text \<open>All four arrays that \<open>cbb_afc\<close> fills.\<close>

definition cbb_afc_arrays ::
  "complex list \<Rightarrow> real \<Rightarrow> real \<Rightarrow> real \<Rightarrow> real \<Rightarrow> bool
   \<Rightarrow> error + real fl list \<times> real fl list \<times> complex list \<times> complex list" where
  "cbb_afc_arrays x_in_afc bn_afc k_d fc_afc f_clk_afc afc_open =
     (case NCO_init fc_afc f_clk_afc 1 0 32 of
        Inl e \<Rightarrow> Inl e
      | Inr AFC_NCO \<Rightarrow>
          (case loop_parms1 bn_afc 1 f_clk_afc True of
             Inl e \<Rightarrow> Inl e
           | Inr alpha2_afc \<Rightarrow>
               cbb_afc_loop afc_open f_clk_afc x_in_afc AFC_NCO
                 (Discriminator_init f_clk_afc 0)
                 (LoopFilter1_init alpha2_afc (Fin 0)) (Fin 0)))"

text \<open>\<open>cbb_afc\<close> returns three of them.\<close>

definition cbb_afc ::
  "complex list \<Rightarrow> real \<Rightarrow> real \<Rightarrow> real \<Rightarrow> real \<Rightarrow> bool
   \<Rightarrow> error + real fl list \<times> real fl list \<times> complex list" where
  "cbb_afc x_in_afc bn_afc k_d fc_afc f_clk_afc afc_open =
     (case cbb_afc_arrays x_in_afc bn_afc k_d fc_afc f_clk_afc afc_open of
        Inl e \<Rightarrow> Inl e
      | Inr (y_d_afc, y_lf_afc, x_out_afc, x_NCO_afc) \<Rightarrow>
          Inr (y_d_afc, y_lf_afc, x_out_afc))"

subsection \<open>The analog PLL models \<open>PLL1\<close> and \<open>PLL_cbb\<close>\<close>

text \<open>
  What the first part of either function binds: \<open>K\<close>, \<open>tau1\<close> and \<open>tau2\<close>, each only
  for some loop types (\<open>None\<close>: the name is unbound).
\<close>

record pll_parms =
  K :: "real option"
  tau1 :: "real option"
  tau2 :: "real option"

text \<open>The registers of the two trapezoidal integrators.\<close>

record pll_regs =
  filt_in_last :: real
  filt_out_last :: real
  vco_in_last :: real
  vco_out :: real
  vco_out_last :: real
  vco_out_cbb :: complex   \<comment> \<open>\<open>PLL_cbb\<close> only\<close>

definition pll_regs_init :: pll_regs where
  "pll_regs_init =
     \<lparr> filt_in_last = 0, filt_out_last = 0, vco_in_last = 0, vco_out = 0,
       vco_out_last = 0, vco_out_cbb = 0 \<rparr>"

text \<open>
  The parameters of \<open>PLL1\<close>; \<open>Kv\<close> is already in rad/s/v. An unknown loop type only
  warns and binds nothing.
\<close>

definition PLL1_parms :: "int \<Rightarrow> real \<Rightarrow> real \<Rightarrow> real \<Rightarrow> error + pll_parms" where
  "PLL1_parms loop_type Kv fn zeta =
     (if loop_type = 1 then
        Inr \<lparr> K = Some (2 * pi * fn), tau1 = None, tau2 = None \<rparr>
      else if loop_type = 2 then
        (if pi * fn = 0 then Inl ZeroDivisionError
         else Inr \<lparr> K = Some (4 * pi * zeta * fn), tau1 = None,
                    tau2 = Some (zeta / (pi * fn)) \<rparr>)
      else if loop_type = 3 then
        (if (2 * pi * fn)\<^sup>2 = 0 \<or> 2 * pi * fn = 0 \<or> Kv = 0 \<or> 2 * zeta = 0
         then Inl ZeroDivisionError
         else Inr \<lparr> K = Some Kv,
                    tau1 = Some (Kv / (2 * pi * fn)\<^sup>2),
                    tau2 = Some (2 * zeta / (2 * pi * fn)
                                 * (1 - 2 * pi * fn / Kv * 1 / (2 * zeta))) \<rparr>)
      else Inr \<lparr> K = None, tau1 = None, tau2 = None \<rparr>)"

text \<open>
  The parameters of \<open>PLL_cbb\<close>: the same text, but for loop type 3 the square is
  written \<open>(2*np.pi*fn)^2\<close>, the exclusive or of a float and an integer.
\<close>

definition PLL_cbb_parms :: "int \<Rightarrow> real \<Rightarrow> real \<Rightarrow> real \<Rightarrow> error + pll_parms" where
  "PLL_cbb_parms loop_type Kv fn zeta =
     (if loop_type = 1 then
        Inr \<lparr> K = Some (2 * pi * fn), tau1 = None, tau2 = None \<rparr>
      else if loop_type = 2 then
        (if pi * fn = 0 then Inl ZeroDivisionError
         else Inr \<lparr> K = Some (4 * pi * zeta * fn), tau1 = None,
                    tau2 = Some (zeta / (pi * fn)) \<rparr>)
      else if loop_type = 3 then Inl TypeError
      else Inr \<lparr> K = None, tau1 = None, tau2 = None \<rparr>)"

text \<open>
  Loop gain, loop filter and VCO of one sample: lines 391 to 414 of \<open>PLL1\<close> and lines
  486 to 509 of \<open>PLL_cbb\<close>, which are the same text. The result is \<open>vco_in\<close> and the
  registers after the sample.
\<close>

definition pll_filter_vco ::
  "int \<Rightarrow> real \<Rightarrow> real \<Rightarrow> pll_parms \<Rightarrow> real \<Rightarrow> pll_regs \<Rightarrow> error + real \<times> pll_regs" where
  "pll_filter_vco loop_type T Kv p pd_out r =
     (case K p of
        None \<Rightarrow> Inl UnboundLocalError
      | Some K' \<Rightarrow>
          if Kv = 0 then Inl ZeroDivisionError
          else
            let gain_out = K' / Kv * pd_out;
                vco = (\<lambda>vco_in r1.
                         let vo = vco_out_last r1 + T / 2 * (vco_in + vco_in_last r1)
                         in (vco_in, r1 \<lparr> vco_in_last := vco_in, vco_out_last := vo,
                                          vco_out := Kv * vo \<rparr>))
            in if loop_type = 2 then
                 (case tau2 p of
                    None \<Rightarrow> Inl UnboundLocalError
                  | Some t2 \<Rightarrow>
                      if t2 = 0 then Inl ZeroDivisionError
                      else
                        let filt_in = (1 / t2) * gain_out;
                            filt_out = filt_out_last r + T / 2 * (filt_in + filt_in_last r);
                            r1 = r \<lparr> filt_in_last := filt_in, filt_out_last := filt_out \<rparr>
                        in Inr (vco (filt_out + gain_out) r1))
               else if loop_type = 3 then
                 (case (tau1 p, tau2 p) of
                    (Some t1, Some t2) \<Rightarrow>
                      if t1 = 0 \<or> t2 = 0 then Inl ZeroDivisionError
                      else
                        let filt_in = (t2 / t1) * gain_out - (1 / t1) * filt_out_last r;
                            u3 = filt_in + (1 / t2) * filt_out_last r;
                            filt_out = filt_out_last r + T / 2 * (filt_in + filt_in_last r);
                            r1 = r \<lparr> filt_in_last := filt_in, filt_out_last := filt_out \<rparr>
                        in Inr (vco u3 r1)
                  | _ \<Rightarrow> Inl UnboundLocalError)
               else Inr (vco gain_out r))"

text \<open>The simulation loop of \<open>PLL1\<close>; the lists are \<open>theta_hat\<close>, \<open>ev\<close> and \<open>phi\<close>.\<close>

fun PLL1_loop ::
  "int \<Rightarrow> real \<Rightarrow> real \<Rightarrow> pll_parms \<Rightarrow> int \<Rightarrow> real list \<Rightarrow> pll_regs
   \<Rightarrow> error + real list \<times> real list \<times> real list" where
  "PLL1_loop loop_type T Kv p non_lin [] r = Inr ([], [], [])"
| "PLL1_loop loop_type T Kv p non_lin (th # ths) r =
     (let phi_k = th - vco_out r;
          pd_out = (if non_lin = 1 then sin phi_k else phi_k)
      in case pll_filter_vco loop_type T Kv p pd_out r of
           Inl e \<Rightarrow> Inl e
         | Inr (vco_in, r') \<Rightarrow>
             (case PLL1_loop loop_type T Kv p non_lin ths r' of
                Inl e \<Rightarrow> Inl e
              | Inr (theta_hats, evs, phis) \<Rightarrow>
                  Inr (vco_out r' # theta_hats, vco_in # evs, phi_k # phis)))"

definition PLL1 ::
  "real list \<Rightarrow> real \<Rightarrow> int \<Rightarrow> real \<Rightarrow> real \<Rightarrow> real \<Rightarrow> int
   \<Rightarrow> error + real list \<times> real list \<times> real list" where
  "PLL1 theta fs_in loop_type Kv_in fn zeta non_lin =
     (if fs_in = 0 then Inl ZeroDivisionError
      else
        let T = 1 / fs_in; Kv = 2 * pi * Kv_in
        in case PLL1_parms loop_type Kv fn zeta of
             Inl e \<Rightarrow> Inl e
           | Inr p \<Rightarrow> PLL1_loop loop_type T Kv p non_lin theta pll_regs_init)"

text \<open>The simulation loop of \<open>PLL_cbb\<close>.\<close>

fun PLL_cbb_loop ::
  "int \<Rightarrow> real \<Rightarrow> real \<Rightarrow> pll_parms \<Rightarrow> complex list \<Rightarrow> pll_regs
   \<Rightarrow> error + real list \<times> real list \<times> real list" where
  "PLL_cbb_loop loop_type T Kv p [] r = Inr ([], [], [])"
| "PLL_cbb_loop loop_type T Kv p (x # xs) r =
     (let phi_k = Im (x * cnj (vco_out_cbb r));
          pd_out = phi_k
      in case pll_filter_vco loop_type T Kv p pd_out r of
           Inl e \<Rightarrow> Inl e
         | Inr (vco_in, r1) \<Rightarrow>
             (let r' = r1 \<lparr> vco_out_cbb := cis (vco_out r1) \<rparr>
              in case PLL_cbb_loop loop_type T Kv p xs r' of
                   Inl e \<Rightarrow> Inl e
                 | Inr (theta_hats, evs, phis) \<Rightarrow>
                     Inr (vco_out r' # theta_hats, vco_in # evs, phi_k # phis)))"

definition PLL_cbb ::
  "complex list \<Rightarrow> real \<Rightarrow> int \<Rightarrow> real \<Rightarrow> real \<Rightarrow> real
   \<Rightarrow> error + real list \<times> real list \<times> real list" where
  "PLL_cbb x fs_in loop_type Kv_in fn zeta =
     (if fs_in = 0 then Inl ZeroDivisionError
      else
        let T = 1 / fs_in; Kv = 2 * pi * Kv_in
        in case PLL_cbb_parms loop_type Kv fn zeta of
             Inl e \<Rightarrow> Inl e
           | Inr p \<Rightarrow> PLL_cbb_loop loop_type T Kv p x pll_regs_init)"

subsection \<open>Decision directed carrier phase tracking (\<open>DD_carrier_sync\<close>)\<close>

text \<open>\<open>np.std\<close> of a complex array that is not empty.\<close>

definition np_std :: "complex list \<Rightarrow> real" where
  "np_std zs =
     (let m = sum_list zs / of_nat (length zs)
      in sqrt ((\<Sum>z\<leftarrow>zs. (cmod (z - m))\<^sup>2) / real (length zs)))"

text \<open>
  The hard decision \<open>a_hat[nn]\<close> for the rotated sample. The array \<open>a_hat\<close> starts as
  zeros, and an unsupported \<open>M\<close> or \<open>mod_type\<close> only prints (if anything) and leaves
  the zero in place. (\<open>np.int\<close> is the Python \<open>int\<close>, as in the numpy releases the
  function was written for.)
\<close>

definition DD_decision :: "string \<Rightarrow> int \<Rightarrow> complex \<Rightarrow> complex" where
  "DD_decision mod_type M z_prime =
     (if mod_type = ''MPSK'' then
        (if M = 2 then of_real (sgn (Re z_prime))
         else if M = 4 then
           Complex (sgn (Re z_prime)) (sgn (Im z_prime)) / of_real (sqrt 2)
         else if 4 < M then
           (let k = rint (Arg z_prime * of_int M / 2 / pi) mod M
            in cis (2 * pi * of_int k / of_int M))
         else 0)
      else if mod_type = ''MQAM'' then
        (if M = 2 \<or> M = 4 \<or> M = 16 \<or> M = 64 \<or> M = 256 then
           (let x_m = (if M = 2 then 1 else sqrt (of_int M) - 1);
                a_hat_shift = (z_prime + of_real x_m * Complex 1 1) / 2;
                a_hat_shiftI = trunc (min (max (of_int (rint (Re a_hat_shift))) 0) x_m);
                a_hat_shiftQ = trunc (min (max (of_int (rint (Im a_hat_shift))) 0) x_m)
            in 2 * Complex (of_int a_hat_shiftI) (of_int a_hat_shiftQ)
                 - of_real x_m * Complex 1 1)
         else 0)
      else 0)"

text \<open>
  The phase error \<open>e_phi[nn]\<close>. Detector 2 divides by the decision, a numpy division
  that is not finite when the decision is zero; an unknown detector prints and leaves
  the zero of \<open>e_phi\<close> in place.
\<close>

definition DD_detector :: "int \<Rightarrow> complex \<Rightarrow> complex \<Rightarrow> error + real" where
  "DD_detector type z_prime a_hat =
     (if type = 0 then Inr (Im z_prime * Re a_hat - Re z_prime * Im a_hat)
      else if type = 1 then Inr (Arg (cis (Arg z_prime - Arg a_hat)))
      else if type = 2 then
        (if a_hat = 0 then Inl NonFinite else Inr (Im (z_prime / a_hat)))
      else Inr 0)"

text \<open>
  The loop over the samples, with the registers \<open>theta_hat\<close> and \<open>vi\<close>; the lists are
  \<open>z_prime\<close>, \<open>a_hat\<close>, \<open>e_phi\<close> and \<open>theta_h\<close>.
\<close>

fun DD_loop ::
  "string \<Rightarrow> int \<Rightarrow> int \<Rightarrow> bool \<Rightarrow> real \<Rightarrow> real \<Rightarrow> complex list \<Rightarrow> real \<Rightarrow> real
   \<Rightarrow> error + complex list \<times> complex list \<times> real list \<times> real list" where
  "DD_loop mod_type M type open_loop K1 K2 [] theta_hat vi = Inr ([], [], [], [])"
| "DD_loop mod_type M type open_loop K1 K2 (z # zs) theta_hat vi =
     (let z_prime = z * cis (- theta_hat);
          a_hat = DD_decision mod_type M z_prime
      in case DD_detector type z_prime a_hat of
           Inl e \<Rightarrow> Inl e
         | Inr e_phi \<Rightarrow>
             (let vp = K1 * e_phi;
                  vi' = vi + K2 * e_phi;
                  v = vp + vi';
                  theta_new = np_mod (theta_hat + v) (2 * pi);
                  theta_next = (if open_loop then 0 else theta_new)
              in case DD_loop mod_type M type open_loop K1 K2 zs theta_next vi' of
                   Inl e \<Rightarrow> Inl e
                 | Inr (z_primes, a_hats, e_phis, theta_hs) \<Rightarrow>
                     Inr (z_prime # z_primes, a_hat # a_hats, e_phi # e_phis,
                          theta_new # theta_hs)))"

text \<open>
  \<open>DD_carrier_sync\<close>. The gains are quotients of Python numbers. For \<open>MQAM\<close> the input
  is divided by \<open>z_scale\<close> first (numpy: every sample stops being finite when
  \<open>z_scale\<close> is zero or, for \<open>M < 1\<close>, the root of a negative number) and \<open>z_prime\<close> is
  multiplied by it at the end; nothing happens to an empty input.
\<close>

definition DD_carrier_sync ::
  "complex list \<Rightarrow> int \<Rightarrow> real \<Rightarrow> real \<Rightarrow> string \<Rightarrow> int \<Rightarrow> bool
   \<Rightarrow> error + complex list \<times> complex list \<times> real list \<times> real list" where
  "DD_carrier_sync z M BnTs zeta mod_type type open_loop =
     (if zeta = 0 \<or> zeta + 1 / (4 * zeta) = 0 then Inl ZeroDivisionError
      else
        let Ns = 1; Kp = 1; K0 = 1;
            K1 = 4 * zeta / (zeta + 1 / (4 * zeta)) * BnTs / Ns / Kp / K0;
            K2 = 4 / (zeta + 1 / (4 * zeta))\<^sup>2 * (BnTs / Ns)\<^sup>2 / Kp / K0
        in if mod_type = ''MQAM'' then
             (if M = 1 then Inl ZeroDivisionError
              else if z = [] then Inr ([], [], [], [])
              else if M < 1 then Inl NonFinite
              else
                let z_scale = np_std z * sqrt (3 / (2 * (of_int M - 1)))
                in if z_scale = 0 then Inl NonFinite
                   else
                     case DD_loop mod_type M type open_loop K1 K2
                            (map (\<lambda>x. x / of_real z_scale) z) 0 0 of
                       Inl e \<Rightarrow> Inl e
                     | Inr (z_prime, a_hat, e_phi, theta_h) \<Rightarrow>
                         Inr (map (\<lambda>x. x * of_real z_scale) z_prime, a_hat, e_phi, theta_h))
           else DD_loop mod_type M type open_loop K1 K2 z 0 0)"

subsection \<open>Non-data-aided symbol synchronization (\<open>NDA_symb_sync\<close>)\<close>

text \<open>
  The subscript \<open>xs[i]\<close> of Python: \<open>i\<close> from \<open>0\<close> on counts from the front, \<open>i\<close> from
  \<open>-1\<close> down counts from the back, and anything beyond either end raises.
\<close>

definition py_get :: "'a list \<Rightarrow> int \<Rightarrow> error + 'a" where
  "py_get xs i =
     (if 0 \<le> i \<and> i < int (length xs) then Inr (xs ! nat i)
      else if i < 0 \<and> - int (length xs) \<le> i then Inr (xs ! nat (int (length xs) + i))
      else Inl IndexError)"

text \<open>
  The slice \<open>xs[a:b:-1]\<close>: both bounds are taken from the end when negative and then
  clipped; the elements are those at \<open>a, a-1, ...\<close> down to, but without, \<open>b\<close>.
\<close>

definition py_slice_rev :: "'a list \<Rightarrow> int \<Rightarrow> int \<Rightarrow> 'a list" where
  "py_slice_rev xs a b =
     (let n = int (length xs);
          a1 = (if a < 0 then max (a + n) (- 1) else min a (n - 1));
          b1 = (if b < 0 then max (b + n) (- 1) else min b (n - 1))
      in map (\<lambda>i. xs ! nat i) (rev [b1 + 1 .. a1]))"

text \<open>The slice \<open>xs[:s]\<close>.\<close>

definition py_slice_to :: "'a list \<Rightarrow> int \<Rightarrow> 'a list" where
  "py_slice_to xs s =
     (if s < 0 then take (nat (int (length xs) + s)) xs else take (nat s) xs)"

text \<open>
  \<open>np.sum(window * coefficients)\<close>: the product is elementwise for equal lengths, a
  window of one element is broadcast, and other shapes do not combine.
\<close>

definition farrow_sum :: "complex list \<Rightarrow> real list \<Rightarrow> error + complex" where
  "farrow_sum w c =
     (if length w = length c then Inr (\<Sum>(x, y)\<leftarrow>zip w c. x * of_real y)
      else if length w = 1 then Inr (\<Sum>y\<leftarrow>c. hd w * of_real y)
      else Inl ValueError)"

text \<open>
  The interpolant at position \<open>n\<close> of the padded input for the fractional delay \<open>mu\<close>:
  lines 90 to 109 with \<open>n = nn\<close>, lines 114 to 131 with \<open>n = nn + kk\<close>. An
  interpolator order other than 1, 2 or 3 is logged and binds nothing, so that the
  next use of the interpolant is the use of an unbound local.
\<close>

definition NDA_interp :: "int \<Rightarrow> complex list \<Rightarrow> int \<Rightarrow> real \<Rightarrow> error + complex" where
  "NDA_interp I_ord z n mu =
     (if I_ord = 1 then
        (case py_get z n of
           Inl e \<Rightarrow> Inl e
         | Inr z0 \<Rightarrow>
             (case py_get z (n - 1) of
                Inl e \<Rightarrow> Inl e
              | Inr z1 \<Rightarrow> Inr (of_real mu * z0 + of_real (1 - mu) * z1)))
      else if I_ord = 2 then
        (let w = py_slice_rev z (n + 2) (n - 1 - 1)
         in case farrow_sum w [1, - 1, - 1, 1] of
              Inl e \<Rightarrow> Inl e
            | Inr s2 \<Rightarrow>
                (case farrow_sum w [- 1, 3, - 1, - 1] of
                   Inl e \<Rightarrow> Inl e
                 | Inr s1 \<Rightarrow>
                     (case py_get z n of
                        Inl e \<Rightarrow> Inl e
                      | Inr v0 \<Rightarrow>
                          (let v2 = 1 / 2 * s2; v1 = 1 / 2 * s1
                           in Inr ((of_real mu * v2 + v1) * of_real mu + v0)))))
      else if I_ord = 3 then
        (let w = py_slice_rev z (n + 2) (n - 1 - 1)
         in case farrow_sum w [1 / 6, - 1 / 2, 1 / 2, - 1 / 6] of
              Inl e \<Rightarrow> Inl e
            | Inr v3 \<Rightarrow>
                (case farrow_sum w [0, 1 / 2, - 1, 1 / 2] of
                   Inl e \<Rightarrow> Inl e
                 | Inr v2 \<Rightarrow>
                     (case farrow_sum w [- 1 / 6, 1, - 1 / 2, - 1 / 3] of
                        Inl e \<Rightarrow> Inl e
                      | Inr v1 \<Rightarrow>
                          (case py_get z n of
                             Inl e \<Rightarrow> Inl e
                           | Inr v0 \<Rightarrow>
                               Inr (((of_real mu * v3 + v2) * of_real mu + v1) * of_real mu
                                    + v0)))))
      else Inl UnboundLocalError)"

text \<open>The sum \<open>c1\<close> of the timing error detector over \<open>kk\<close> in \<open>range(Ns)\<close>.\<close>

fun NDA_ted :: "int \<Rightarrow> int \<Rightarrow> complex list \<Rightarrow> int \<Rightarrow> real \<Rightarrow> nat list \<Rightarrow> complex
                \<Rightarrow> error + complex" where
  "NDA_ted I_ord Ns z nn mu [] c1 = Inr c1"
| "NDA_ted I_ord Ns z nn mu (kk # kks) c1 =
     (case NDA_interp I_ord z (nn + int kk) mu of
        Inl e \<Rightarrow> Inl e
      | Inr z_TED_interp \<Rightarrow>
          NDA_ted I_ord Ns z nn mu kks
            (c1 + of_real ((cmod z_TED_interp)\<^sup>2)
                  * cis (- 1 * 2 * pi / of_int Ns * of_nat kk)))"

text \<open>
  What a symbol event computes (lines 90 to 137): the interpolant \<open>z_interp\<close>, the
  smoothed timing error \<open>epsilon\<close> and the new smoothing buffer.
\<close>

definition NDA_event ::
  "int \<Rightarrow> int \<Rightarrow> int \<Rightarrow> complex list \<Rightarrow> int \<Rightarrow> real \<Rightarrow> complex list
   \<Rightarrow> error + complex \<times> real \<times> complex list" where
  "NDA_event I_ord Ns L z nn mu c1_buff =
     (case NDA_interp I_ord z nn mu of
        Inl e \<Rightarrow> Inl e
      | Inr z_interp \<Rightarrow>
          (case NDA_ted I_ord Ns z nn mu [0 ..< nat Ns] 0 of
             Inl e \<Rightarrow> Inl e
           | Inr c1 \<Rightarrow>
               (let c1' = c1 / of_int Ns;
                    buff = c1' # butlast c1_buff;
                    eps = - 1 / (2 * pi) * Arg (sum_list buff / of_int (2 * L + 1))
                in Inr (z_interp, eps, buff))))"

record NDA_state =
  vi :: real
  CNT_next :: real
  mu_next :: real
  underflow :: nat
  epsilon :: real
  mm :: nat
  c1_buff :: "complex list"
  zz :: "complex list"
  e_tau :: "real list"

text \<open>
  One pass of the loop body for the sample index \<open>nn\<close>. When the control word \<open>W\<close> is
  zero at an underflow, \<open>CNT/W\<close> is not finite.
\<close>

definition NDA_iter ::
  "int \<Rightarrow> int \<Rightarrow> int \<Rightarrow> real \<Rightarrow> real \<Rightarrow> complex list \<Rightarrow> int \<Rightarrow> NDA_state
   \<Rightarrow> error + NDA_state" where
  "NDA_iter I_ord Ns L K1 K2 z nn s =
     (let CNT = CNT_next s; mu = mu_next s
      in case (if underflow s = 1 then
                 (case NDA_event I_ord Ns L z nn mu (c1_buff s) of
                    Inl e \<Rightarrow> Inl e
                  | Inr (z_interp, eps, buff) \<Rightarrow>
                      if mm s < length (zz s) then
                        Inr (s \<lparr> epsilon := eps, c1_buff := buff,
                                 zz := (zz s)[mm s := z_interp],
                                 e_tau := (e_tau s)[mm s := eps],
                                 mm := mm s + 1 \<rparr>)
                      else Inl IndexError)
               else Inr s) of
           Inl e \<Rightarrow> Inl e
         | Inr s1 \<Rightarrow>
             (let vp = K1 * epsilon s1;
                  vi' = vi s1 + K2 * epsilon s1;
                  v = vp + vi';
                  W = 1 / of_int Ns + v;
                  CNT_next' = CNT - W
              in if CNT_next' < 0 then
                   (if W = 0 then Inl NonFinite
                    else Inr (s1 \<lparr> vi := vi', CNT_next := 1 + CNT_next',
                                   underflow := 1, mu_next := CNT / W \<rparr>))
                 else Inr (s1 \<lparr> vi := vi', CNT_next := CNT_next',
                                underflow := 0, mu_next := mu \<rparr>)))"

text \<open>The \<open>for\<close> loop over the sample indices.\<close>

fun NDA_loop ::
  "int \<Rightarrow> int \<Rightarrow> int \<Rightarrow> real \<Rightarrow> real \<Rightarrow> complex list \<Rightarrow> int list \<Rightarrow> NDA_state
   \<Rightarrow> error + NDA_state" where
  "NDA_loop I_ord Ns L K1 K2 z [] s = Inr s"
| "NDA_loop I_ord Ns L K1 K2 z (nn # nns) s =
     (case NDA_iter I_ord Ns L K1 K2 z nn s of
        Inl e \<Rightarrow> Inl e
      | Inr s' \<Rightarrow> NDA_loop I_ord Ns L K1 K2 z nns s')"

text \<open>
  \<open>NDA_symb_sync\<close> before the loop (lines 66 to 85): the loop gains \<open>K1\<close> and \<open>K2\<close>,
  the input with the zero put in front, the sample indices of the loop and the state
  in which it starts. The gains are quotients of Python numbers, and \<open>np.zeros\<close>
  refuses a negative length.
\<close>

definition NDA_setup ::
  "complex list \<Rightarrow> int \<Rightarrow> int \<Rightarrow> real \<Rightarrow> real
   \<Rightarrow> error + real \<times> real \<times> complex list \<times> int list \<times> NDA_state" where
  "NDA_setup z Ns L BnTs zeta =
     (if zeta = 0 \<or> zeta + 1 / (4 * zeta) = 0 \<or> Ns = 0 then Inl ZeroDivisionError
      else
        let K0 = - 1; Kp = 1;
            K1 = 4 * zeta / (zeta + 1 / (4 * zeta)) * BnTs / of_int Ns / Kp / K0;
            K2 = 4 / (zeta + 1 / (4 * zeta))\<^sup>2 * (BnTs / of_int Ns)\<^sup>2 / Kp / K0
        in if 2 * L + 1 < 0 then Inl ValueError
           else
             let s0 = \<lparr> vi = 0, CNT_next = 0, mu_next = 0, underflow = 0, epsilon = 0,
                        mm = 1, c1_buff = replicate (nat (2 * L + 1)) 0,
                        zz = replicate (length z) 0, e_tau = replicate (length z) 0 \<rparr>;
                 z' = 0 # z;
                 stop = Ns * \<lfloor>real (length z') / of_int Ns - of_int (Ns - 1)\<rfloor>
             in Inr (K1, K2, z', [1 .. stop - 1], s0))"

text \<open>\<open>NDA_symb_sync\<close> up to the end of the loop: the state in which the loop ends.\<close>

definition NDA_run ::
  "complex list \<Rightarrow> int \<Rightarrow> int \<Rightarrow> real \<Rightarrow> real \<Rightarrow> int \<Rightarrow> error + NDA_state" where
  "NDA_run z Ns L BnTs zeta I_ord =
     (case NDA_setup z Ns L BnTs zeta of
        Inl e \<Rightarrow> Inl e
      | Inr (K1, K2, z', nns, s0) \<Rightarrow> NDA_loop I_ord Ns L K1 K2 z' nns s0)"

text \<open>
  The two arrays after the slices of lines 162 and 165, before \<open>zz\<close> is divided by its
  standard deviation.
\<close>

definition NDA_sliced :: "NDA_state \<Rightarrow> complex list \<times> real list" where
  "NDA_sliced s =
     (py_slice_to (zz s) (- (int (length (zz s)) - int (mm s) + 1)),
      py_slice_to (e_tau s) (- (int (length (e_tau s)) - int (mm s) + 1)))"

text \<open>
  Line 164, \<open>zz /= np.std(zz)\<close>, a numpy division: no element stays finite when the
  deviation is zero, and an empty array stays empty.
\<close>

definition NDA_normalize :: "complex list \<Rightarrow> complex fl list" where
  "NDA_normalize zs =
     (if zs = [] then []
      else if np_std zs = 0 then map (\<lambda>x. NonFin) zs
      else map (\<lambda>x. Fin (x / of_real (np_std zs))) zs)"

definition NDA_symb_sync ::
  "complex list \<Rightarrow> int \<Rightarrow> int \<Rightarrow> real \<Rightarrow> real \<Rightarrow> int
   \<Rightarrow> error + complex fl list \<times> real list" where
  "NDA_symb_sync z Ns L BnTs zeta I_ord =
     (case NDA_run z Ns L BnTs zeta I_ord of
        Inl e \<Rightarrow> Inl e
      | Inr s \<Rightarrow> (case NDA_sliced s of (zz', e_tau') \<Rightarrow> Inr (NDA_normalize zz', e_tau')))"

text \<open>
  The symbol events of a run of the loop, in order: for every pass that starts with
  the underflow flag set, the interpolant and the timing error computed in it.
\<close>

fun NDA_events ::
  "int \<Rightarrow> int \<Rightarrow> int \<Rightarrow> real \<Rightarrow> real \<Rightarrow> complex list \<Rightarrow> int list \<Rightarrow> NDA_state
   \<Rightarrow> (complex \<times> real) list" where
  "NDA_events I_ord Ns L K1 K2 z [] s = []"
| "NDA_events I_ord Ns L K1 K2 z (nn # nns) s =
     (case NDA_iter I_ord Ns L K1 K2 z nn s of
        Inl e \<Rightarrow> []
      | Inr s' \<Rightarrow>
          (if underflow s = 1 then
             (case NDA_event I_ord Ns L z nn (mu_next s) (c1_buff s) of
                Inl e \<Rightarrow> []
              | Inr (z_interp, eps, buff) \<Rightarrow> [(z_interp, eps)])
           else [])
          @ NDA_events I_ord Ns L K1 K2 z nns s')"

text \<open>The symbol events of a call of \<open>NDA_symb_sync\<close>.\<close>

definition NDA_run_events ::
  "complex list \<Rightarrow> int \<Rightarrow> int \<Rightarrow> real \<Rightarrow> real \<Rightarrow> int \<Rightarrow> (complex \<times> real) list" where
  "NDA_run_events z Ns L BnTs zeta I_ord =
     (case NDA_setup z Ns L BnTs zeta of
        Inl e \<Rightarrow> []
      | Inr (K1, K2, z', nns, s0) \<Rightarrow> NDA_events I_ord Ns L K1 K2 z' nns s0)"

section \<open>Properties\<close>

subsection \<open>The oscillator\<close>

lemma rint_of_int: "rint (of_int i) = i"
  by (simp add: rint_def)

lemma rint_nearest: "\<bar>of_int (rint x) - x\<bar> \<le> 1 / 2"
  unfolding rint_def Let_def by (auto; linarith)

lemma rint_bounds:
  assumes "of_int a \<le> x" and "x \<le> of_int b"
  shows "a \<le> rint x \<and> rint x \<le> b"
  using assms unfolding rint_def Let_def by (auto; linarith)

lemma trunc_of_int: "trunc (of_int i) = i"
  by (simp add: trunc_def)

lemma trunc_abs: "\<bar>real_of_int (trunc x)\<bar> \<le> \<bar>x\<bar>"
  unfolding trunc_def by (auto; linarith)

lemma floor_log2_le:
  assumes "0 < x" and "x < 2 powr of_int b"
  shows "\<lfloor>log 2 x\<rfloor> < b"
proof -
  from assms have "log 2 x < of_int b"
    by (simp add: log_less_iff)
  then show ?thesis by linarith
qed

text \<open>
  \<open>float64\<close> leaves a float as it is: a significand of at most 53 bits times a power
  of two.
\<close>

lemma float64_exact:
  assumes "\<bar>m\<bar> < 2 ^ 53"
  shows "float64 (of_int m * 2 powr of_int j) = of_int m * 2 powr of_int j"
proof (cases "m = 0")
  case True
  then show ?thesis by (simp add: float64_def)
next
  case False
  define x :: real where "x = of_int m * 2 powr of_int j"
  define ex where "ex = \<lfloor>log 2 \<bar>x\<bar>\<rfloor>"
  from False have x0: "x \<noteq> 0" "0 < \<bar>x\<bar>" by (simp_all add: x_def)
  from assms have "real_of_int \<bar>m\<bar> < 2 ^ 53"
    by (metis of_int_less_iff of_int_numeral of_int_power)
  then have "\<bar>x\<bar> < 2 ^ 53 * 2 powr of_int j"
    by (simp add: x_def abs_mult)
  also have "\<dots> = 2 powr of_int (53 + j)"
    by (simp add: powr_add powr_realpow [symmetric])
  finally have "ex < 53 + j"
    unfolding ex_def using x0(2) by (intro floor_log2_le)
  define k where "k = nat (j + 52 - ex)"
  have k: "int k = j + 52 - ex"
    using \<open>ex < 53 + j\<close> by (simp add: k_def)
  have "x * 2 powr of_int (52 - ex) = of_int m * (2 powr of_int j * 2 powr of_int (52 - ex))"
    by (simp add: x_def)
  also have "\<dots> = of_int m * 2 powr of_int (j + 52 - ex)"
    unfolding powr_add [symmetric] by (simp add: algebra_simps)
  also have "\<dots> = real_of_int (m * 2 ^ k)"
    unfolding k [symmetric] by (simp add: powr_realpow)
  finally have r: "rint (x * 2 powr of_int (52 - ex)) = m * 2 ^ k"
    by (simp only: rint_of_int)
  have "real_of_int (m * 2 ^ k) * 2 powr of_int (ex - 52)
          = of_int m * 2 powr of_int (int k + (ex - 52))"
    by (simp add: powr_add powr_realpow)
  also have "\<dots> = x" by (simp add: k x_def)
  finally show ?thesis
    unfolding x_def [symmetric] float64_def Let_def ex_def [symmetric] r using x0(1) by simp
qed

lemma float64_of_int: "\<bar>i\<bar> < 2 ^ 53 \<Longrightarrow> float64 (of_int i) = of_int i"
  using float64_exact [of i 0] by simp

lemma float64_of_nat: "n < 2 ^ 53 \<Longrightarrow> float64 (real n) = real n"
  using float64_of_int [of "int n"] by simp

lemma float64_numeral: "(numeral n :: int) < 2 ^ 53 \<Longrightarrow> float64 (numeral n) = numeral n"
  using float64_of_int [of "numeral n"] by simp

lemma float64_zero: "float64 0 = 0"
  by (simp add: float64_def)

lemma float64_one: "float64 1 = 1"
  using float64_of_int [of 1] by simp

text \<open>The relative error of the rounding is at most \<open>2 ^ - 53\<close>.\<close>

lemma float64_error: "\<bar>float64 x - x\<bar> \<le> \<bar>x\<bar> / 2 ^ 53"
proof (cases "x = 0")
  case True
  then show ?thesis by (simp add: float64_def)
next
  case False
  define ex where "ex = \<lfloor>log 2 \<bar>x\<bar>\<rfloor>"
  define y where "y = x * 2 powr of_int (52 - ex)"
  define u :: real where "u = 2 powr of_int (ex - 52)"
  have u: "0 < u" by (simp add: u_def)
  have yx: "y * u = x"
    by (simp add: y_def u_def powr_add [symmetric])
  have f: "float64 x = of_int (rint y) * u"
    using False by (simp add: float64_def Let_def ex_def y_def u_def)
  have "\<bar>float64 x - x\<bar> = \<bar>of_int (rint y) - y\<bar> * u"
    unfolding f using u yx by (metis abs_mult abs_of_pos left_diff_distrib)
  also have "\<dots> \<le> 1 / 2 * u"
    using rint_nearest [of y] u by (intro mult_right_mono) simp_all
  also have "\<dots> = 2 powr of_int ex / 2 ^ 53"
    by (simp add: u_def powr_diff powr_realpow [symmetric])
  also have "\<dots> \<le> \<bar>x\<bar> / 2 ^ 53"
  proof -
    from False have "of_int ex \<le> log 2 \<bar>x\<bar>" by (simp add: ex_def)
    with False have "2 powr of_int ex \<le> \<bar>x\<bar>"
      by (simp add: le_log_iff)
    then show ?thesis by (simp add: divide_right_mono)
  qed
  finally show ?thesis .
qed

lemma to_signed_of_int:
  "- (2 ^ (b - 1)) \<le> i \<Longrightarrow> i < 2 ^ (b - 1) \<Longrightarrow> to_signed b (of_int i) = i"
  by (simp add: to_signed_def trunc_of_int)

lemma dtype_of_float_wraps:
  assumes "w = 8 \<or> w = 16 \<or> w = 32 \<or> w = 64"
    and "w < 32 \<longrightarrow> - (2 ^ 31) \<le> i \<and> i < 2 ^ 31"
    and "w = 32 \<longrightarrow> - (2 ^ 63) \<le> i \<and> i < 2 ^ 63"
    and "w = 64 \<longrightarrow> - (2 ^ 63) \<le> i \<and> i < 2 ^ 64"
  shows "int (dtype_of_float w (of_int i)) = i mod 2 ^ w"
proof (cases "w = 64")
  case False
  with assms show ?thesis by (auto simp: dtype_of_float_def to_signed_of_int)
next
  case True
  with assms(4) have r: "- (2 ^ 63) \<le> i" "i < 2 ^ 64" by simp_all
  show ?thesis
  proof (cases "i < 2 ^ 63")
    case True
    then have "real_of_int i < real_of_int (2 ^ 63)" by (simp only: of_int_less_iff)
    then have "real_of_int i < 2 ^ 63" by simp
    with True r(1) \<open>w = 64\<close> show ?thesis
      by (simp add: dtype_of_float_def to_signed_of_int)
  next
    case False
    then have "\<not> real_of_int i < real_of_int (2 ^ 63)"
      unfolding of_int_less_iff .
    then have n: "\<not> real_of_int i < 2 ^ 63" by simp
    have e: "real_of_int i - 2 ^ 63 = real_of_int (i - 2 ^ 63)" by simp
    from False r(2) have "to_signed 64 (real_of_int (i - 2 ^ 63)) = i - 2 ^ 63"
      by (intro to_signed_of_int) simp_all
    with n \<open>w = 64\<close> show ?thesis
      unfolding dtype_of_float_def e by simp
  qed
qed






























lemma dtype_of_float_trunc:
  assumes "w = 8 \<or> w = 16 \<or> w = 32" and "\<bar>x\<bar> < 2 ^ 31"
  shows "int (dtype_of_float w x) = trunc x mod 2 ^ w"
proof -
  from trunc_abs [of x] assms(2) have "\<bar>real_of_int (trunc x)\<bar> < real_of_int (2 ^ 31)" by simp
  then have "\<bar>trunc x\<bar> < 2 ^ 31"
    by (metis of_int_abs of_int_less_iff)
  then have "- (2 ^ 31) \<le> trunc x \<and> trunc x < 2 ^ 31"
    and "- (2 ^ 63) \<le> trunc x \<and> trunc x < 2 ^ 63"
    by (simp_all add: abs_if split: if_splits)
  then have "to_signed 32 x = trunc x" "to_signed 64 x = trunc x"
    by (simp_all add: to_signed_def)
  with assms(1) show ?thesis
    by (auto simp: dtype_of_float_def)
qed

lemma NCO_set_fcenter_delta_k:
  assumes "NCO_set_fcenter f s = Inr s'"
    and "dtype s = 8 \<or> dtype s = 16 \<or> dtype s = 32"
    and "\<bar>float64 (float64 (f * max_bits_const s) / fs s)\<bar> \<le> 2 ^ 31 - 1"
  shows "int (delta_k s')
         = rint (float64 (float64 (f * max_bits_const s) / fs s)) mod 2 ^ dtype s"
proof -
  define q where "q = float64 (float64 (f * max_bits_const s) / fs s)"
  from assms(3) have q: "real_of_int (- (2 ^ 31 - 1)) \<le> q" "q \<le> real_of_int (2 ^ 31 - 1)"
    unfolding q_def by (simp_all add: abs_if split: if_splits)
  from rint_bounds [OF q] have r: "- (2 ^ 31) \<le> rint q \<and> rint q < 2 ^ 31" by simp
  from assms(1) have "delta_k s' = dtype_of_float (dtype s) (of_int (rint q))"
    by (auto simp: NCO_set_fcenter_def Let_def q_def split: if_splits)
  moreover have "int (dtype_of_float (dtype s) (of_int (rint q))) = rint q mod 2 ^ dtype s"
  proof (rule dtype_of_float_wraps)
    show "dtype s = 8 \<or> dtype s = 16 \<or> dtype s = 32 \<or> dtype s = 64"
      using assms(2) by blast
  qed (use r assms(2) in auto)
  ultimately show ?thesis
    unfolding q_def [symmetric] by simp
qed

lemma NCO_init_delta_k:
  assumes "NCO_init f fs0 kc0 k0 nb = Inr s"
    and "nb \<in> {8, 16, 32}"
    and "fs0 \<noteq> 0"
    and "\<bar>float64 (of_int (rint (float64 (f * 2 ^ nat nb))) / fs0)\<bar> < 2 ^ 31"
  shows "int (delta_k s)
         = trunc (float64 (of_int (rint (float64 (f * 2 ^ nat nb))) / fs0)) mod 2 ^ nat nb"
proof -
  from assms(2) have m: "max_bits_const_of nb = 2 ^ nat nb"
    by (auto simp: max_bits_const_of_def)
  from assms(2) have w: "nat nb = 8 \<or> nat nb = 16 \<or> nat nb = 32" by auto
  from assms(1,2,3) have "delta_k s = dtype_of_float (nat nb)
       (float64 (of_int (rint (float64 (f * max_bits_const_of nb))) / fs0))"
    by (auto simp: NCO_init_def Let_def split: if_splits)
  then show ?thesis
    unfolding m using assms(4) by (simp add: dtype_of_float_trunc [OF w])
qed

lemma float64_512_3:
  "trunc (float64 (512 / 3)) = 170 \<and> rint (float64 (512 / 3)) = 171"
proof -
  define q where "q = float64 (512 / 3)"
  from float64_error [of "512 / 3"] have "\<bar>q - 512 / 3\<bar> \<le> 1 / 1000"
    unfolding q_def by simp
  then have b: "1706 / 10 < q" "q < 1707 / 10" by (simp_all add: abs_if split: if_splits)
  then have fl: "\<lfloor>q\<rfloor> = 170" by linarith
  from b have "trunc q = 170" unfolding trunc_def using fl by simp
  moreover from b have "rint q = 171" unfolding rint_def Let_def fl by simp
  ultimately show ?thesis unfolding q_def by simp
qed

lemma rint_numeral: "rint (numeral n) = numeral n"
  using rint_of_int [of "numeral n"] by simp

lemma trunc_numeral: "trunc (numeral n) = numeral n"
  using trunc_of_int [of "numeral n"] by simp

text \<open>
  C3. The constructor and \<open>set_fcenter\<close> do not derive the same \<open>delta_k\<close>: for the
  centre frequency 2 at the sample rate 3 with 8 bits the constructor rounds
  \<open>2 * 256\<close>, divides by 3 and drops the fraction of 170.67 (170), while
  \<open>set_fcenter(2)\<close> on the same oscillator rounds the quotient (171).
\<close>

theorem NCO_init_delta_k_truncates:
  "map_sum id delta_k (NCO_init 2 3 1 0 8) = Inr 170
   \<and> map_sum id delta_k
        (case NCO_init 2 3 1 0 8 of Inl e \<Rightarrow> Inl e | Inr s \<Rightarrow> NCO_set_fcenter 2 s) = Inr 171"
  by (simp add: NCO_init_def NCO_set_fcenter_def max_bits_const_of_def rint_numeral
      float64_numeral float64_512_3 dtype_of_float_def to_signed_def trunc_numeral
      dtype_of_int_def Let_def)

lemma NCO_pos_edge_nonzero:
  assumes "t \<noteq> 0" and "k_old s < 2 ^ 53" and "k_hat s < 2 ^ 53"
  shows "NCO_pos_edge (Some t) s = Inr (t < real (k_old s) - real (k_hat s))"
proof -
  from assms(2,3) have "\<bar>int (k_old s) - int (k_hat s)\<bar> < 2 ^ 53" by simp
  from float64_of_int [OF this]
  have "float64 (real (k_old s) - real (k_hat s)) = real (k_old s) - real (k_hat s)"
    by simp
  with assms show ?thesis
    by (simp add: NCO_pos_edge_def float64_of_nat)
qed

lemma NCO_pos_edge_zero: "NCO_pos_edge (Some 0) s = NCO_pos_edge None s"
  by (simp add: NCO_pos_edge_def)

text \<open>
  C8. A threshold of zero is replaced by half scale: with 8 bits, the centre frequency
  200 at the sample rate 256 and two updates, \<open>k_old = 200\<close> and \<open>k_hat = 144\<close>, so the
  difference 56 exceeds 0, but \<open>pos_edge(0)\<close> compares it with 128 and returns false
  (as it does when the threshold is omitted), while \<open>pos_edge(1)\<close> returns true.
\<close>

theorem NCO_pos_edge_zero_threshold:
  "(case NCO_init 200 256 1 0 8 of
      Inl e \<Rightarrow> None
    | Inr s0 \<Rightarrow>
        (case NCO_calls s0 [Update 0, Update 0] of
           Inl e \<Rightarrow> None
         | Inr s \<Rightarrow> Some (k_old s, k_hat s, NCO_pos_edge (Some 0) s, NCO_pos_edge (Some 1) s, NCO_pos_edge None s)))
   = Some (200, 144, Inr False, Inr True, Inr False)"
  by (simp add: NCO_init_def NCO_update_def NCO_pos_edge_def half_scale_def float64_numeral
      float64_zero max_bits_const_of_def rint_def dtype_of_float_def to_signed_def trunc_def
      dtype_of_int_def Let_def)

subsection \<open>The loop filter of order 2\<close>

lemma LoopFilter2_filter_real:
  fixes f :: "real LoopFilter2"
  shows "fst (LoopFilter2_filter x f) = alpha1 f * x + alpha2 f * (m_state (accum f) + x)"
    and "m_state (accum (snd (LoopFilter2_filter x f))) = m_state (accum f) + x"
    and "alpha1 (snd (LoopFilter2_filter x f)) = alpha1 f"
    and "alpha2 (snd (LoopFilter2_filter x f)) = alpha2 f"
  by (simp_all add: LoopFilter2_filter_def Accumulator_update_def Accumulator_out_def Let_def)

lemma LoopFilter2_state:
  fixes f0 :: "real LoopFilter2"
  shows "m_state (accum (foldl (\<lambda>f u. snd (LoopFilter2_filter u f)) f0 xs))
           = m_state (accum f0) + sum_list xs
   \<and> alpha1 (foldl (\<lambda>f u. snd (LoopFilter2_filter u f)) f0 xs) = alpha1 f0
   \<and> alpha2 (foldl (\<lambda>f u. snd (LoopFilter2_filter u f)) f0 xs) = alpha2 f0"
  by (induction xs arbitrary: f0) (simp_all add: LoopFilter2_filter_real)

text \<open>
  C6. A new \<open>LoopFilter2\<close> with the accumulator at zero returns
  \<open>alpha1 * x2 + alpha2 * (x1 + x2)\<close> at the second of the calls \<open>filter(x1)\<close>,
  \<open>filter(x2)\<close>; in general, after the inputs \<open>xs\<close> a call \<open>filter(x)\<close> returns \<open>alpha1\<close>
  times \<open>x\<close> plus \<open>alpha2\<close> times the sum of the initial state and of all inputs so
  far, \<open>x\<close> included.
\<close>

theorem LoopFilter2_output:
  fixes x1 x2 a1 a2 s0 x :: real
  shows "fst (LoopFilter2_filter x2 (snd (LoopFilter2_filter x1 (LoopFilter2_init a1 a2 0))))
           = a1 * x2 + a2 * (x1 + x2)
   \<and> fst (LoopFilter2_filter x
            (foldl (\<lambda>f u. snd (LoopFilter2_filter u f)) (LoopFilter2_init a1 a2 s0) xs))
           = a1 * x + a2 * (s0 + sum_list xs + x)"
proof -
  have i: "m_state (accum (LoopFilter2_init a1 a2 s)) = s"
    "alpha1 (LoopFilter2_init a1 a2 s) = a1" "alpha2 (LoopFilter2_init a1 a2 s) = a2" for s :: real
    by (simp_all add: LoopFilter2_init_def Accumulator_init_def)
  show ?thesis
    by (simp add: LoopFilter2_filter_real LoopFilter2_state i)
qed

subsection \<open>The analog PLL model for complex baseband\<close>

text \<open>
  \<open>PLL1\<close>, which writes the square of line 464 as \<open>**2\<close>, returns three sequences of
  the length of the input for loop type 3, as long as no time constant is zero.
\<close>

lemma pll_filter_vco_type_3:
  assumes "Kv \<noteq> 0" and "t1 \<noteq> 0" and "t2 \<noteq> 0"
  shows "\<exists>vco_in r'. pll_filter_vco 3 T Kv \<lparr> K = Some k, tau1 = Some t1, tau2 = Some t2 \<rparr> pd_out r
                     = Inr (vco_in, r')"
  using assms by (simp add: pll_filter_vco_def Let_def)

lemma PLL1_loop_type_3:
  assumes "Kv \<noteq> 0" and "t1 \<noteq> 0" and "t2 \<noteq> 0"
  shows "\<exists>theta_hat ev phi.
           PLL1_loop 3 T Kv \<lparr> K = Some k, tau1 = Some t1, tau2 = Some t2 \<rparr> non_lin theta r
             = Inr (theta_hat, ev, phi)
           \<and> length theta_hat = length theta \<and> length ev = length theta
           \<and> length phi = length theta"
proof (induction theta arbitrary: r)
  case Nil
  then show ?case by simp
next
  case (Cons th ths)
  let ?p = "\<lparr> K = Some k, tau1 = Some t1, tau2 = Some t2 \<rparr>"
  let ?pd = "if non_lin = 1 then sin (th - vco_out r) else th - vco_out r"
  from pll_filter_vco_type_3 [OF assms, of T k ?pd r]
  obtain vco_in r' where f: "pll_filter_vco 3 T Kv ?p ?pd r = Inr (vco_in, r')" by blast
  from Cons.IH [of r'] obtain a b c where
    l: "PLL1_loop 3 T Kv ?p non_lin ths r' = Inr (a, b, c)"
    and n: "length a = length ths" "length b = length ths" "length c = length ths"
    by blast
  show ?case
    by (simp add: Let_def f l n)
qed

lemma PLL1_loop_type_3_returns:
  assumes "fs_in \<noteq> 0" and "fn \<noteq> 0" and "Kv_in \<noteq> 0" and "zeta \<noteq> 0"
    and "2 * zeta / (2 * pi * fn) * (1 - 2 * pi * fn / (2 * pi * Kv_in) * 1 / (2 * zeta)) \<noteq> 0"
  shows "\<exists>theta_hat ev phi.
           PLL1 theta fs_in 3 Kv_in fn zeta non_lin = Inr (theta_hat, ev, phi)
           \<and> length theta_hat = length theta \<and> length ev = length theta
           \<and> length phi = length theta"
proof -
  let ?Kv = "2 * pi * Kv_in"
  have kv: "?Kv \<noteq> 0" using assms(3) by simp
  have t1: "?Kv / (2 * pi * fn)\<^sup>2 \<noteq> 0" using assms(2,3) by simp
  have p: "PLL1_parms 3 ?Kv fn zeta
           = Inr \<lparr> K = Some ?Kv, tau1 = Some (?Kv / (2 * pi * fn)\<^sup>2),
                   tau2 = Some (2 * zeta / (2 * pi * fn)
                                 * (1 - 2 * pi * fn / ?Kv * 1 / (2 * zeta))) \<rparr>"
    using assms(2,3,4) by (simp add: PLL1_parms_def)
  from PLL1_loop_type_3 [OF kv t1 assms(5), of "1 / fs_in" ?Kv non_lin theta pll_regs_init]
  show ?thesis
    unfolding PLL1_def Let_def p using assms(1) by simp
qed

text \<open>
  C7. \<open>PLL_cbb\<close> with loop type 3 returns nothing: for every input and configuration
  with a sample rate other than zero it raises the \<open>TypeError\<close> of \<open>float ^ int\<close> before
  the loop, as at the input \<open>[1, j]\<close> with \<open>fs = 100\<close>, \<open>Kv = 1\<close>, \<open>fn = 1\<close>,
  \<open>zeta = 0.707\<close>.
\<close>

theorem PLL_cbb_loop_type_3_raises:
  "PLL_cbb x fs_in 3 Kv fn zeta = (if fs_in = 0 then Inl ZeroDivisionError else Inl TypeError)
   \<and> PLL_cbb [1, \<i>] 100 3 1 1 (707 / 1000) = Inl TypeError"
  by (simp add: PLL_cbb_def PLL_cbb_parms_def Let_def)

subsection \<open>The open loops\<close>

lemma cbb_pll_loop_open:
  "length xs = length ys \<Longrightarrow>
   snd (snd (cbb_pll_loop True k_d xs nco lf1 y1)) = snd (snd (cbb_pll_loop True k_d' ys nco lf2 y2))"
proof (induction xs ys arbitrary: nco lf1 lf2 y1 y2 rule: list_induct2)
  case Nil
  then show ?case by simp
next
  case (Cons x xs y ys)
  show ?case
    using Cons.IH by (simp add: Let_def case_prod_beta)
qed

lemma cbb_afc_loop_open:
  "length xs = length ys \<Longrightarrow>
   \<exists>r1 r2. cbb_afc_loop True f xs nco d1 lf1 y1 = Inr r1
          \<and> cbb_afc_loop True f' ys nco d2 lf2 y2 = Inr r2
          \<and> snd (snd (snd r1)) = snd (snd (snd r2))
          \<and> length (snd (snd (snd r1))) = length xs"
proof (induction xs ys arbitrary: nco d1 d2 lf1 lf2 y1 y2 rule: list_induct2)
  case Nil
  then show ?case by simp
next
  case (Cons x xs y ys)
  let ?n = "NCO_update 0 nco"
  let ?u = "Discriminator_update (x * cnj (NCO_out_exp ?n)) True d1"
  let ?v = "Discriminator_update (y * cnj (NCO_out_exp ?n)) True d2"
  let ?p = "LoopFilter1_filter (fst ?u) lf1"
  let ?q = "LoopFilter1_filter (fst ?v) lf2"
  from Cons.IH [where nco = ?n and ?d1.0 = "snd ?u" and ?lf1.0 = "snd ?p"
      and ?y1.0 = "fst ?p" and ?d2.0 = "snd ?v" and ?lf2.0 = "snd ?q"
      and ?y2.0 = "fst ?q"]
  obtain r1 r2 where
    "cbb_afc_loop True f xs ?n (snd ?u) (snd ?p) (fst ?p) = Inr r1"
    "cbb_afc_loop True f' ys ?n (snd ?v) (snd ?q) (fst ?q) = Inr r2"
    "snd (snd (snd r1)) = snd (snd (snd r2))" "length (snd (snd (snd r1))) = length xs"
    by blast
  then show ?case
    by (simp add: Let_def case_prod_beta)
qed

text \<open>
  C10. With the open-loop flag set, two inputs of the same length and the same
  remaining configuration give the same outcome as far as the oscillator goes: the
  same array \<open>x_NCO_pll\<close> from \<open>cbb_pll\<close> and the same array \<open>x_NCO_afc\<close> inside
  \<open>cbb_afc\<close> (or the same exception from the configuration).
\<close>

theorem open_loop_NCO_independent:
  assumes "length x1 = length x2"
  shows "map_sum id (\<lambda>(y_d_pll, y_lf_pll, x_NCO_pll). x_NCO_pll)
             (cbb_pll x1 bn k_d fc f_clk_in True)
         = map_sum id (\<lambda>(y_d_pll, y_lf_pll, x_NCO_pll). x_NCO_pll)
             (cbb_pll x2 bn k_d fc f_clk_in True)
       \<and> map_sum id (\<lambda>(y_d_afc, y_lf_afc, x_out_afc, x_NCO_afc). x_NCO_afc)
             (cbb_afc_arrays x1 bn k_d fc f_clk_in True)
         = map_sum id (\<lambda>(y_d_afc, y_lf_afc, x_out_afc, x_NCO_afc). x_NCO_afc)
             (cbb_afc_arrays x2 bn k_d fc f_clk_in True)"
proof
  show "map_sum id (\<lambda>(y_d_pll, y_lf_pll, x_NCO_pll). x_NCO_pll)
             (cbb_pll x1 bn k_d fc f_clk_in True)
         = map_sum id (\<lambda>(y_d_pll, y_lf_pll, x_NCO_pll). x_NCO_pll)
             (cbb_pll x2 bn k_d fc f_clk_in True)"
    using cbb_pll_loop_open [OF assms]
    by (auto simp: cbb_pll_def case_prod_beta split: sum.splits)
next
  have "map_sum id (\<lambda>r. snd (snd (snd r))) (cbb_afc_loop True f_clk_in x1 nco d lf y)
        = map_sum id (\<lambda>r. snd (snd (snd r))) (cbb_afc_loop True f_clk_in x2 nco d lf y)"
    for nco d lf y
    using cbb_afc_loop_open [OF assms, of f_clk_in nco d lf y f_clk_in d lf y] by auto
  then show "map_sum id (\<lambda>(y_d_afc, y_lf_afc, x_out_afc, x_NCO_afc). x_NCO_afc)
             (cbb_afc_arrays x1 bn k_d fc f_clk_in True)
         = map_sum id (\<lambda>(y_d_afc, y_lf_afc, x_out_afc, x_NCO_afc). x_NCO_afc)
             (cbb_afc_arrays x2 bn k_d fc f_clk_in True)"
    by (auto simp: cbb_afc_arrays_def split_def split: sum.splits)
qed

theorem open_loop_NCO_independent_witness:
  "length [1, \<i>] = length [0, 0 :: complex]
   \<and> map_sum id (\<lambda>(y_d_pll, y_lf_pll, x_NCO_pll). x_NCO_pll)
             (cbb_pll [1, \<i>] 10 1 1000 8000 True)
         = map_sum id (\<lambda>(y_d_pll, y_lf_pll, x_NCO_pll). x_NCO_pll)
             (cbb_pll [0, 0] 10 1 1000 8000 True)
   \<and> map_sum id (\<lambda>(y_d_afc, y_lf_afc, x_out_afc, x_NCO_afc). x_NCO_afc)
             (cbb_afc_arrays [1, \<i>] 10 1 1000 8000 True)
         = map_sum id (\<lambda>(y_d_afc, y_lf_afc, x_out_afc, x_NCO_afc). x_NCO_afc)
             (cbb_afc_arrays [0, 0] 10 1 1000 8000 True)
   \<and> \<not> isl (cbb_pll [0, 0] 10 1 1000 8000 True)
   \<and> \<not> isl (cbb_afc_arrays [0, 0] 10 1 1000 8000 True)"
proof -
  have l: "length [1, \<i>] = length [0, 0 :: complex]" by simp
  have p: "\<not> isl (cbb_pll [0, 0] 10 1 1000 8000 True)"
    by (simp add: cbb_pll_def NCO_init_def loop_parms2_def Let_def split_def)
  have a: "\<not> isl (cbb_afc_arrays [0, 0] 10 1 1000 8000 True)"
    by (simp add: cbb_afc_arrays_def NCO_init_def loop_parms1_def Let_def split_def)
  from open_loop_NCO_independent [OF l, of 10 1 1000 8000] l p a show ?thesis
    by simp
qed

subsection \<open>Decision directed carrier tracking\<close>

lemma np_mod_range: "0 < m \<Longrightarrow> 0 \<le> np_mod x m \<and> np_mod x m < m"
  using floor_divide_lower [of m x] floor_divide_upper [of m x]
  by (simp add: np_mod_def algebra_simps)

lemma zeta_denominator: "(zeta::real) \<noteq> 0 \<Longrightarrow> zeta + 1 / (4 * zeta) \<noteq> 0"
proof
  assume z: "zeta \<noteq> 0" and e: "zeta + 1 / (4 * zeta) = 0"
  from e z have "4 * zeta * zeta + 1 = 0" by (simp add: field_simps)
  moreover have "0 \<le> zeta * zeta" by simp
  ultimately show False by linarith
qed

lemma DD_loop_Cons:
  assumes "DD_loop mod_type M type open_loop K1 K2 (z # zs) theta0 vi0 = Inr r"
  obtains e zp' ah' ep' th' where
    "DD_detector type (z * cis (- theta0)) (DD_decision mod_type M (z * cis (- theta0))) = Inr e"
    "DD_loop mod_type M type open_loop K1 K2 zs
       (if open_loop then 0 else np_mod (theta0 + (K1 * e + (vi0 + K2 * e))) (2 * pi))
       (vi0 + K2 * e) = Inr (zp', ah', ep', th')"
    "r = (z * cis (- theta0) # zp', DD_decision mod_type M (z * cis (- theta0)) # ah',
          e # ep', np_mod (theta0 + (K1 * e + (vi0 + K2 * e))) (2 * pi) # th')"
proof (cases "DD_detector type (z * cis (- theta0)) (DD_decision mod_type M (z * cis (- theta0)))")
  case (Inl a)
  with assms show ?thesis by (simp add: Let_def)
next
  case (Inr e)
  show ?thesis
  proof (cases "DD_loop mod_type M type open_loop K1 K2 zs
       (if open_loop then 0 else np_mod (theta0 + (K1 * e + (vi0 + K2 * e))) (2 * pi))
       (vi0 + K2 * e)")
    case (Inl a)
    with assms Inr show ?thesis by (simp add: Let_def)
  next
    case r': (Inr r')
    obtain zp' ah' ep' th' where "r' = (zp', ah', ep', th')" by (cases r') auto
    with assms Inr r' that show ?thesis by (simp add: Let_def)
  qed
qed

lemma DD_loop_outputs:
  assumes "DD_loop mod_type M type open_loop K1 K2 zs theta0 vi0 = Inr (zp, ah, ep, th)"
  shows "length zp = length zs \<and> length ah = length zs \<and> length ep = length zs
         \<and> length th = length zs
         \<and> (\<forall>n < length zs.
              zp ! n = zs ! n * cis (- (if n = 0 then theta0 else if open_loop then 0 else th ! (n - 1)))
              \<and> ah ! n = DD_decision mod_type M (zp ! n)
              \<and> DD_detector type (zp ! n) (ah ! n) = Inr (ep ! n)
              \<and> th ! n = np_mod ((if n = 0 then theta0 else if open_loop then 0 else th ! (n - 1))
                                   + (K1 * ep ! n + (vi0 + K2 * sum_list (take (Suc n) ep))))
                                 (2 * pi))"
  using assms
proof (induction zs arbitrary: theta0 vi0 zp ah ep th)
  case Nil
  then show ?case by simp
next
  case (Cons z zs)
  let ?zp = "z * cis (- theta0)"
  let ?a = "DD_decision mod_type M ?zp"
  from Cons.prems obtain e zp' ah' ep' th' where
    e: "DD_detector type ?zp ?a = Inr e"
    and r: "DD_loop mod_type M type open_loop K1 K2 zs
       (if open_loop then 0 else np_mod (theta0 + (K1 * e + (vi0 + K2 * e))) (2 * pi))
       (vi0 + K2 * e) = Inr (zp', ah', ep', th')"
    and o: "zp = ?zp # zp'" "ah = ?a # ah'" "ep = e # ep'"
       "th = np_mod (theta0 + (K1 * e + (vi0 + K2 * e))) (2 * pi) # th'"
    by (elim DD_loop_Cons) simp
  note ih = Cons.IH [OF r]
  have len: "length zp' = length zs" "length ah' = length zs" "length ep' = length zs"
    "length th' = length zs" using ih by simp_all
  have st: "zp ! n = (z # zs) ! n * cis (- (if n = 0 then theta0 else if open_loop then 0 else th ! (n - 1)))
              \<and> ah ! n = DD_decision mod_type M (zp ! n)
              \<and> DD_detector type (zp ! n) (ah ! n) = Inr (ep ! n)
              \<and> th ! n = np_mod ((if n = 0 then theta0 else if open_loop then 0 else th ! (n - 1))
                                   + (K1 * ep ! n + (vi0 + K2 * sum_list (take (Suc n) ep))))
                                 (2 * pi)" if n: "n < length (z # zs)" for n
  proof (cases n)
    case 0
    then show ?thesis by (simp add: o e)
  next
    case (Suc k)
    with n have k: "k < length zs" by simp
    from ih k have s: "zp' ! k = zs ! k * cis (- (if k = 0 then (if open_loop then 0 else np_mod (theta0 + (K1 * e + (vi0 + K2 * e))) (2 * pi)) else if open_loop then 0 else th' ! (k - 1)))"
      "ah' ! k = DD_decision mod_type M (zp' ! k)"
      "DD_detector type (zp' ! k) (ah' ! k) = Inr (ep' ! k)"
      "th' ! k = np_mod ((if k = 0 then (if open_loop then 0 else np_mod (theta0 + (K1 * e + (vi0 + K2 * e))) (2 * pi)) else if open_loop then 0 else th' ! (k - 1))
                                   + (K1 * ep' ! k + ((vi0 + K2 * e) + K2 * sum_list (take (Suc k) ep'))))
                                 (2 * pi)"
      by blast+
    let ?tn = "np_mod (theta0 + (K1 * e + (vi0 + K2 * e))) (2 * pi)"
    have p: "(if open_loop then 0 else (?tn # th') ! k)
             = (if k = 0 then (if open_loop then 0 else ?tn) else if open_loop then 0 else th' ! (k - 1))"
      by (cases k) simp_all
    have a: "vi0 + K2 * e + K2 * sum_list (take (Suc k) ep')
             = vi0 + K2 * sum_list (take (Suc (Suc k)) (e # ep'))"
      by (simp add: distrib_left)
    have eqs: "zp ! n = zp' ! k" "ah ! n = ah' ! k" "ep ! n = ep' ! k" "th ! n = th' ! k"
      "(z # zs) ! n = zs ! k"
      "(if n = 0 then theta0 else if open_loop then 0 else th ! (n - 1))
       = (if open_loop then 0 else (?tn # th') ! k)"
      "take (Suc n) ep = take (Suc (Suc k)) (e # ep')"
      by (simp_all add: Suc o)
    from s show ?thesis
      unfolding eqs p a by blast
  qed
  have lens: "length zp = length (z # zs)" "length ah = length (z # zs)"
    "length ep = length (z # zs)" "length th = length (z # zs)"
    by (simp_all add: o len)
  show ?case
    apply (intro conjI)
        apply (rule lens)+
    apply (intro allI impI)
    apply (erule st)
    done
qed

lemma DD_detector_error: "DD_detector type zp a = Inl e \<Longrightarrow> e = NonFinite \<and> type = 2"
  by (auto simp: DD_detector_def split: if_splits)

lemma DD_loop_error:
  "DD_loop mod_type M type open_loop K1 K2 zs theta0 vi0 = Inl e \<Longrightarrow> e = NonFinite \<and> type = 2"
proof (induction zs arbitrary: theta0 vi0)
  case Nil
  then show ?case by simp
next
  case (Cons z zs)
  show ?case
  proof (cases "DD_detector type (z * cis (- theta0)) (DD_decision mod_type M (z * cis (- theta0)))")
    case (Inl a)
    with Cons.prems have "a = e" by (simp add: Let_def)
    with Inl show ?thesis by (auto dest: DD_detector_error)
  next
    case (Inr ep)
    show ?thesis
    proof (cases "DD_loop mod_type M type open_loop K1 K2 zs
       (if open_loop then 0 else np_mod (theta0 + (K1 * ep + (vi0 + K2 * ep))) (2 * pi))
       (vi0 + K2 * ep)")
      case (Inl a)
      with Cons.prems Inr have "a = e" by (simp add: Let_def)
      with Inl show ?thesis by (auto dest: Cons.IH)
    next
      case r: (Inr r)
      with Cons.prems Inr show ?thesis by (simp add: Let_def split: prod.splits)
    qed
  qed
qed

lemma DD_carrier_sync_zeta0:
  "DD_carrier_sync z M BnTs 0 mod_type type open_loop = Inl ZeroDivisionError"
  by (simp add: DD_carrier_sync_def)

lemma DD_carrier_sync_other:
  assumes "zeta \<noteq> 0" and "mod_type \<noteq> ''MQAM''"
  shows "DD_carrier_sync z M BnTs zeta mod_type type open_loop
         = DD_loop mod_type M type open_loop
             (4 * zeta / (zeta + 1 / (4 * zeta)) * BnTs)
             (4 / (zeta + 1 / (4 * zeta))\<^sup>2 * BnTs\<^sup>2) z 0 0"
  using assms by (simp add: DD_carrier_sync_def zeta_denominator)

lemma DD_carrier_sync_MQAM_stop:
  assumes "zeta \<noteq> 0"
  shows "DD_carrier_sync z 1 BnTs zeta ''MQAM'' type open_loop = Inl ZeroDivisionError"
    and "M \<noteq> 1 \<Longrightarrow> DD_carrier_sync [] M BnTs zeta ''MQAM'' type open_loop = Inr ([], [], [], [])"
    and "M < 1 \<Longrightarrow> z \<noteq> [] \<Longrightarrow>
         DD_carrier_sync z M BnTs zeta ''MQAM'' type open_loop = Inl NonFinite"
    and "1 < M \<Longrightarrow> z \<noteq> [] \<Longrightarrow> np_std z = 0 \<Longrightarrow>
         DD_carrier_sync z M BnTs zeta ''MQAM'' type open_loop = Inl NonFinite"
  using assms by (simp_all add: DD_carrier_sync_def zeta_denominator)

lemma DD_carrier_sync_MQAM_run:
  assumes "zeta \<noteq> 0" and "1 < M" and "z \<noteq> []"
    and sc: "sc = np_std z * sqrt (3 / (2 * (of_int M - 1)))" and "np_std z \<noteq> 0"
  shows "DD_carrier_sync z M BnTs zeta ''MQAM'' type open_loop
         = (case DD_loop ''MQAM'' M type open_loop
                        (4 * zeta / (zeta + 1 / (4 * zeta)) * BnTs)
                        (4 / (zeta + 1 / (4 * zeta))\<^sup>2 * BnTs\<^sup>2)
                        (map (\<lambda>x. x / of_real sc) z) 0 0 of
                   Inl e \<Rightarrow> Inl e
                 | Inr (z_prime, a_hat, e_phi, theta_h) \<Rightarrow>
                     Inr (map (\<lambda>x. x * of_real sc) z_prime, a_hat, e_phi, theta_h))
         \<and> sc \<noteq> 0"
proof -
  from assms have "sc \<noteq> 0" by simp
  with assms(1-3) show ?thesis
    unfolding DD_carrier_sync_def Let_def sc [symmetric]
    by (simp add: zeta_denominator)
qed

lemma DD_loop_phase_track:
  assumes l: "DD_loop mod_type M type open_loop K1 K2 zs 0 0 = Inr (zp, ah, ep, th)"
  shows "length zp = length zs \<and> length ep = length zs \<and> length th = length zs
       \<and> (\<forall>n < length zs.
            0 \<le> th ! n \<and> th ! n < 2 * pi
            \<and> th ! n = np_mod ((if n = 0 \<or> open_loop then 0 else th ! (n - 1))
                          + (K1 * ep ! n + K2 * sum_list (take (Suc n) ep))) (2 * pi)
            \<and> zp ! n = zs ! n * cis (- (if n = 0 \<or> open_loop then 0 else th ! (n - 1))))"
proof -
  have pr: "(if n = 0 then 0 else if open_loop then 0 else th ! (n - 1))
          = (if n = 0 \<or> open_loop then 0 else th ! (n - 1))" for n :: nat
    by simp
  have p2: "(0::real) < 2 * pi" by simp
  note o = DD_loop_outputs [OF l, unfolded pr]
  have "0 \<le> th ! n \<and> th ! n < 2 * pi
            \<and> th ! n = np_mod ((if n = 0 \<or> open_loop then 0 else th ! (n - 1))
                          + (K1 * ep ! n + K2 * sum_list (take (Suc n) ep))) (2 * pi)
            \<and> zp ! n = zs ! n * cis (- (if n = 0 \<or> open_loop then 0 else th ! (n - 1)))"
    if n: "n < length zs" for n
  proof -
    from o n have t: "th ! n = np_mod ((if n = 0 \<or> open_loop then 0 else th ! (n - 1))
                          + (K1 * ep ! n + (0 + K2 * sum_list (take (Suc n) ep)))) (2 * pi)"
      and z: "zp ! n = zs ! n * cis (- (if n = 0 \<or> open_loop then 0 else th ! (n - 1)))"
      by blast+
    from t have t': "th ! n = np_mod ((if n = 0 \<or> open_loop then 0 else th ! (n - 1))
                          + (K1 * ep ! n + K2 * sum_list (take (Suc n) ep))) (2 * pi)"
      by (simp only: add_0)
    from np_mod_range [OF p2] t' have "0 \<le> th ! n \<and> th ! n < 2 * pi" by metis
    with t' z show ?thesis by blast
  qed
  with o show ?thesis by blast
qed

lemma np_mod_small: "0 \<le> x \<Longrightarrow> x < m \<Longrightarrow> np_mod x m = x"
proof -
  assume a: "0 \<le> x" "x < m"
  then have "\<lfloor>x / m\<rfloor> = 0" by (simp add: floor_eq_iff)
  then show ?thesis by (simp add: np_mod_def)
qed

lemma DD_example:
  "DD_carrier_sync [Complex 1 1] 2 (1 / 10) (1 / 2) ''MPSK'' 0 False
   = Inr ([Complex 1 1], [1], [1], [6 / 25])"
proof -
  have "(6 / 25 :: real) < 2 * pi" using pi_ge_two by simp
  then have "np_mod (6 / 25) (2 * pi) = 6 / 25" by (simp add: np_mod_small)
  then show ?thesis
    by (simp add: DD_carrier_sync_def DD_decision_def DD_detector_def power2_eq_square)
qed

text \<open>
  C5, as the code has it. A call of \<open>DD_carrier_sync\<close> stops early only at a division
  by zero: \<open>zeta = 0\<close>, or \<open>MQAM\<close> with \<open>M = 1\<close>, raise; \<open>MQAM\<close> on an input without
  deviation (or with \<open>M < 1\<close>) and detector 2 at a zero decision leave the finite
  numbers. Every other call returns arrays of the length of the input in which, for
  every sample \<open>n\<close>, the phase track \<open>theta_h[n]\<close> lies in \<open>[0, 2 pi)\<close> and is the estimate
  that rotated the sample plus the loop filter output \<open>K1 * e_phi[n] + K2 * (e_phi[0]
  + ... + e_phi[n])\<close>, reduced modulo \<open>2 pi\<close>; the estimate that rotates sample \<open>n\<close> is
  0 for the first sample and whenever \<open>open_loop\<close> is set, and \<open>theta_h[n - 1]\<close>
  otherwise.
\<close>

theorem DD_carrier_sync_phase_track:
  "case DD_carrier_sync z M BnTs zeta mod_type type open_loop of
     Inl e \<Rightarrow>
       e = ZeroDivisionError \<and> (zeta = 0 \<or> mod_type = ''MQAM'' \<and> M = 1)
       \<or> e = NonFinite \<and> (mod_type = ''MQAM'' \<and> (M < 1 \<or> np_std z = 0) \<or> type = 2)
   | Inr (z_prime, a_hat, e_phi, theta_h) \<Rightarrow>
       length z_prime = length z \<and> length e_phi = length z \<and> length theta_h = length z
       \<and> (\<forall>n < length z.
            0 \<le> theta_h ! n \<and> theta_h ! n < 2 * pi
            \<and> theta_h ! n
                = np_mod ((if n = 0 \<or> open_loop then 0 else theta_h ! (n - 1))
                          + (4 * zeta / (zeta + 1 / (4 * zeta)) * BnTs * e_phi ! n
                             + 4 / (zeta + 1 / (4 * zeta))\<^sup>2 * BnTs\<^sup>2
                               * sum_list (take (Suc n) e_phi)))
                    (2 * pi)
            \<and> z_prime ! n
                = z ! n * cis (- (if n = 0 \<or> open_loop then 0 else theta_h ! (n - 1))))"
  (is "?P (DD_carrier_sync z M BnTs zeta mod_type type open_loop)")
proof -
  let ?K1 = "4 * zeta / (zeta + 1 / (4 * zeta)) * BnTs"
  let ?K2 = "4 / (zeta + 1 / (4 * zeta))\<^sup>2 * BnTs\<^sup>2"
  have loop: "?P (DD_loop mod_type M type open_loop ?K1 ?K2 z 0 0)"
  proof (cases "DD_loop mod_type M type open_loop ?K1 ?K2 z 0 0")
    case (Inl e)
    with DD_loop_error [OF Inl] show ?thesis by simp
  next
    case (Inr r)
    obtain zp ah ep th where r: "r = (zp, ah, ep, th)" by (cases r) auto
    from DD_loop_phase_track [OF Inr [unfolded r]] show ?thesis
      unfolding Inr r sum.case prod.case .
  qed
  consider "zeta = 0" | "zeta \<noteq> 0" "mod_type \<noteq> ''MQAM''"
    | "zeta \<noteq> 0" "mod_type = ''MQAM''" "M = 1"
    | "zeta \<noteq> 0" "mod_type = ''MQAM''" "M \<noteq> 1" "z = []"
    | "zeta \<noteq> 0" "mod_type = ''MQAM''" "z \<noteq> []" "M < 1"
    | "zeta \<noteq> 0" "mod_type = ''MQAM''" "z \<noteq> []" "1 < M" "np_std z = 0"
    | "zeta \<noteq> 0" "mod_type = ''MQAM''" "z \<noteq> []" "1 < M" "np_std z \<noteq> 0"
    by linarith
  then show ?thesis
  proof cases
    case 1
    then show ?thesis by (simp add: DD_carrier_sync_zeta0)
  next
    case 2
    from loop show ?thesis unfolding DD_carrier_sync_other [OF 2] .
  next
    case 3
    then show ?thesis by (simp add: DD_carrier_sync_MQAM_stop)
  next
    case 4
    then show ?thesis by (simp add: DD_carrier_sync_MQAM_stop)
  next
    case 5
    then show ?thesis by (simp add: DD_carrier_sync_MQAM_stop)
  next
    case 6
    then show ?thesis by (simp add: DD_carrier_sync_MQAM_stop)
  next
    case 7
    define sc where "sc = np_std z * sqrt (3 / (2 * (of_int M - 1)))"
    note run = DD_carrier_sync_MQAM_run [OF 7(1) 7(4) 7(3) sc_def 7(5), of BnTs type open_loop]
    note runeq = run [THEN conjunct1]
    from run have sc: "sc \<noteq> 0" by (rule conjunct2)
    show ?thesis
    proof (cases "DD_loop ''MQAM'' M type open_loop ?K1 ?K2 (map (\<lambda>x. x / of_real sc) z) 0 0")
      case (Inl e)
      have d: "DD_carrier_sync z M BnTs zeta mod_type type open_loop = Inl e"
        unfolding 7(2) runeq Inl by simp
      from DD_loop_error [OF Inl] show ?thesis
        unfolding d by simp
    next
      case (Inr r)
      obtain zp ah ep th where r: "r = (zp, ah, ep, th)" by (cases r) auto
      have d: "DD_carrier_sync z M BnTs zeta mod_type type open_loop
               = Inr (map (\<lambda>x. x * of_real sc) zp, ah, ep, th)"
        unfolding 7(2) runeq Inr r by simp
      note t = DD_loop_phase_track [OF Inr [unfolded r], unfolded length_map]
      have len: "length zp = length z" "length ep = length z" "length th = length z"
        using t by blast+
      have a: "(map (\<lambda>x. x * of_real sc) zp) ! n
            = z ! n * cis (- (if n = 0 \<or> open_loop then 0 else th ! (n - 1)))"
        if n: "n < length z" for n
      proof -
        from t n have "zp ! n = map (\<lambda>x. x / of_real sc) z ! n
                         * cis (- (if n = 0 \<or> open_loop then 0 else th ! (n - 1)))"
          by blast
        with n len sc show ?thesis by simp
      qed
      have b: "0 \<le> th ! n \<and> th ! n < 2 * pi
            \<and> th ! n = np_mod ((if n = 0 \<or> open_loop then 0 else th ! (n - 1))
                          + (?K1 * ep ! n + ?K2 * sum_list (take (Suc n) ep))) (2 * pi)"
        if n: "n < length z" for n
        using t n by blast
      show ?thesis
        unfolding d sum.case prod.case length_map
      proof (intro conjI allI impI)
        fix n assume n: "n < length z"
        from b [OF n] show "0 \<le> th ! n" and "th ! n < 2 * pi"
          and "th ! n = np_mod ((if n = 0 \<or> open_loop then 0 else th ! (n - 1))
                          + (?K1 * ep ! n + ?K2 * sum_list (take (Suc n) ep))) (2 * pi)"
          by blast+
        from a [OF n] show "(map (\<lambda>x. x * of_real sc) zp) ! n
            = z ! n * cis (- (if n = 0 \<or> open_loop then 0 else th ! (n - 1)))" .
      qed (fact len)+
    qed
  qed
qed

theorem DD_carrier_sync_phase_track_witness:
  "DD_carrier_sync [Complex 1 1] 2 (1 / 10) (1 / 2) ''MPSK'' 0 False
     = Inr ([Complex 1 1], [1], [1], [6 / 25])
   \<and> (0::nat) < length [Complex 1 1]
   \<and> 0 \<le> [6 / 25 :: real] ! 0 \<and> [6 / 25 :: real] ! 0 < 2 * pi"
  using DD_carrier_sync_phase_track [where z = "[Complex 1 1]" and M = 2 and BnTs = "1 / 10"
      and zeta = "1 / 2" and mod_type = "''MPSK''" and type = 0 and open_loop = False]
  unfolding DD_example by simp

text \<open>
  C5, as stated, fails for an input without deviation under \<open>MQAM\<close>: for the one
  sample \<open>[1]\<close> with \<open>M = 4\<close> the scale \<open>z_scale\<close> is zero, the division by it leaves
  the finite numbers, and numpy returns \<open>theta_h = [nan]\<close>.
\<close>

theorem DD_carrier_sync_zero_deviation:
  "DD_carrier_sync [1] 4 (1 / 10) (707 / 1000) ''MQAM'' 0 False = Inl NonFinite"
  by (simp add: DD_carrier_sync_def np_std_def)

subsection \<open>Symbol synchronization\<close>

text \<open>The first half of a pass: the symbol event, if the underflow flag is set.\<close>

lemma NDA_iter_cases:
  assumes "NDA_iter I_ord Ns L K1 K2 z nn s = Inr s'"
  obtains s1 where
    "underflow s \<noteq> 1 \<and> s1 = s
     \<or> underflow s = 1
       \<and> (\<exists>z_interp eps buff.
             NDA_event I_ord Ns L z nn (mu_next s) (c1_buff s) = Inr (z_interp, eps, buff)
             \<and> mm s < length (zz s)
             \<and> s1 = s \<lparr> epsilon := eps, c1_buff := buff, zz := (zz s)[mm s := z_interp],
                          e_tau := (e_tau s)[mm s := eps], mm := mm s + 1 \<rparr>)"
    and "CNT_next s - (1 / of_int Ns + (K1 * epsilon s1 + (vi s1 + K2 * epsilon s1))) < 0
         \<and> 1 / of_int Ns + (K1 * epsilon s1 + (vi s1 + K2 * epsilon s1)) \<noteq> 0
         \<and> s' = s1 \<lparr> vi := vi s1 + K2 * epsilon s1,
                      CNT_next := 1 + (CNT_next s
                          - (1 / of_int Ns + (K1 * epsilon s1 + (vi s1 + K2 * epsilon s1)))),
                      underflow := 1,
                      mu_next := CNT_next s
                          / (1 / of_int Ns + (K1 * epsilon s1 + (vi s1 + K2 * epsilon s1))) \<rparr>
         \<or> \<not> CNT_next s - (1 / of_int Ns + (K1 * epsilon s1 + (vi s1 + K2 * epsilon s1))) < 0
         \<and> s' = s1 \<lparr> vi := vi s1 + K2 * epsilon s1,
                      CNT_next := CNT_next s
                          - (1 / of_int Ns + (K1 * epsilon s1 + (vi s1 + K2 * epsilon s1))),
                      underflow := 0, mu_next := mu_next s \<rparr>"
proof -
  let ?first = "if underflow s = 1 then
                 (case NDA_event I_ord Ns L z nn (mu_next s) (c1_buff s) of
                    Inl e \<Rightarrow> Inl e
                  | Inr (z_interp, eps, buff) \<Rightarrow>
                      if mm s < length (zz s) then
                        Inr (s \<lparr> epsilon := eps, c1_buff := buff,
                                 zz := (zz s)[mm s := z_interp],
                                 e_tau := (e_tau s)[mm s := eps],
                                 mm := mm s + 1 \<rparr>)
                      else Inl IndexError)
               else Inr s"
  from assms obtain s1 where f: "?first = Inr s1"
    unfolding NDA_iter_def Let_def by (cases ?first) simp_all
  have a: "underflow s \<noteq> 1 \<and> s1 = s
     \<or> underflow s = 1
       \<and> (\<exists>z_interp eps buff.
             NDA_event I_ord Ns L z nn (mu_next s) (c1_buff s) = Inr (z_interp, eps, buff)
             \<and> mm s < length (zz s)
             \<and> s1 = s \<lparr> epsilon := eps, c1_buff := buff, zz := (zz s)[mm s := z_interp],
                          e_tau := (e_tau s)[mm s := eps], mm := mm s + 1 \<rparr>)"
    using f by (auto split: if_splits sum.splits)
  from assms have b: "(let W = 1 / of_int Ns + (K1 * epsilon s1 + (vi s1 + K2 * epsilon s1));
                  CNT_next' = CNT_next s - W
              in if CNT_next' < 0 then
                   (if W = 0 then Inl NonFinite
                    else Inr (s1 \<lparr> vi := vi s1 + K2 * epsilon s1, CNT_next := 1 + CNT_next',
                                   underflow := 1, mu_next := CNT_next s / W \<rparr>))
                 else Inr (s1 \<lparr> vi := vi s1 + K2 * epsilon s1, CNT_next := CNT_next',
                                underflow := 0, mu_next := mu_next s \<rparr>)) = Inr s'"
    unfolding NDA_iter_def Let_def f by simp
  show ?thesis
    apply (rule that [of s1])
     apply (rule a)
    using b apply (simp add: Let_def split: if_splits)
    done
qed

text \<open>
  C4. A pass of the loop that completes subtracts from the counter the control word
  \<open>W = 1/Ns + v\<close>, where \<open>v = K1 * epsilon + vi\<close> is the loop filter output of this pass
  (\<open>vi\<close> having taken up \<open>K2 * epsilon\<close>, and \<open>epsilon\<close> being the old one when the pass
  has no symbol event). The underflow flag for the next pass is set exactly when
  \<open>CNT - W < 0\<close>; then the counter becomes \<open>CNT - W + 1\<close> and \<open>mu\<close> becomes \<open>CNT / W\<close>
  (with \<open>W\<close> other than zero); otherwise the counter becomes \<open>CNT - W\<close> and \<open>mu\<close> stays.
  A pass that does not complete has failed in its symbol event, or has met \<open>W = 0\<close> at
  an underflow.
\<close>

theorem NDA_counter_update:
  "case NDA_iter I_ord Ns L K1 K2 z nn s of
     Inl e \<Rightarrow>
       underflow s = 1
       \<or> e = NonFinite \<and> CNT_next s < 0
         \<and> 1 / of_int Ns + (K1 * epsilon s + (vi s + K2 * epsilon s)) = 0
   | Inr s' \<Rightarrow>
       vi s' = vi s + K2 * epsilon s'
       \<and> (underflow s \<noteq> 1 \<longrightarrow> epsilon s' = epsilon s)
       \<and> (let W = 1 / of_int Ns + (K1 * epsilon s' + vi s')
          in CNT_next s' = (if CNT_next s - W < 0 then CNT_next s - W + 1 else CNT_next s - W)
             \<and> underflow s' = (if CNT_next s - W < 0 then 1 else 0)
             \<and> mu_next s' = (if CNT_next s - W < 0 then CNT_next s / W else mu_next s)
             \<and> (CNT_next s - W < 0 \<longrightarrow> W \<noteq> 0))"
proof (cases "NDA_iter I_ord Ns L K1 K2 z nn s")
  case (Inl e)
  have "underflow s = 1
       \<or> e = NonFinite \<and> CNT_next s < 0
         \<and> 1 / of_int Ns + (K1 * epsilon s + (vi s + K2 * epsilon s)) = 0"
  proof (cases "underflow s = 1")
    case True
    then show ?thesis by simp
  next
    case False
    with Inl show ?thesis
      by (simp add: NDA_iter_def Let_def split: if_splits)
  qed
  with Inl show ?thesis by simp
next
  case (Inr s')
  from Inr obtain s1 where
    a: "underflow s \<noteq> 1 \<and> s1 = s
     \<or> underflow s = 1
       \<and> (\<exists>z_interp eps buff.
             NDA_event I_ord Ns L z nn (mu_next s) (c1_buff s) = Inr (z_interp, eps, buff)
             \<and> mm s < length (zz s)
             \<and> s1 = s \<lparr> epsilon := eps, c1_buff := buff, zz := (zz s)[mm s := z_interp],
                          e_tau := (e_tau s)[mm s := eps], mm := mm s + 1 \<rparr>)"
    and b: "CNT_next s - (1 / of_int Ns + (K1 * epsilon s1 + (vi s1 + K2 * epsilon s1))) < 0
         \<and> 1 / of_int Ns + (K1 * epsilon s1 + (vi s1 + K2 * epsilon s1)) \<noteq> 0
         \<and> s' = s1 \<lparr> vi := vi s1 + K2 * epsilon s1,
                      CNT_next := 1 + (CNT_next s
                          - (1 / of_int Ns + (K1 * epsilon s1 + (vi s1 + K2 * epsilon s1)))),
                      underflow := 1,
                      mu_next := CNT_next s
                          / (1 / of_int Ns + (K1 * epsilon s1 + (vi s1 + K2 * epsilon s1))) \<rparr>
         \<or> \<not> CNT_next s - (1 / of_int Ns + (K1 * epsilon s1 + (vi s1 + K2 * epsilon s1))) < 0
         \<and> s' = s1 \<lparr> vi := vi s1 + K2 * epsilon s1,
                      CNT_next := CNT_next s
                          - (1 / of_int Ns + (K1 * epsilon s1 + (vi s1 + K2 * epsilon s1))),
                      underflow := 0, mu_next := mu_next s \<rparr>"
    by (rule NDA_iter_cases)
  from a have v: "vi s1 = vi s" and e: "underflow s \<noteq> 1 \<longrightarrow> epsilon s1 = epsilon s"
    by auto
  from b have e': "epsilon s' = epsilon s1" and v': "vi s' = vi s1 + K2 * epsilon s1"
    by auto
  have "vi s' = vi s + K2 * epsilon s'" using v v' e' by simp
  moreover have "underflow s \<noteq> 1 \<longrightarrow> epsilon s' = epsilon s" using e e' by simp
  moreover have "let W = 1 / of_int Ns + (K1 * epsilon s' + vi s')
          in CNT_next s' = (if CNT_next s - W < 0 then CNT_next s - W + 1 else CNT_next s - W)
             \<and> underflow s' = (if CNT_next s - W < 0 then 1 else 0)
             \<and> mu_next s' = (if CNT_next s - W < 0 then CNT_next s / W else mu_next s)
             \<and> (CNT_next s - W < 0 \<longrightarrow> W \<noteq> 0)"
    unfolding Let_def e' v' using b by auto
  ultimately show ?thesis using Inr by simp
qed

theorem NDA_counter_update_witness:
  "NDA_iter 1 4 0 (- 1 / 20) (- 1 / 400) [0, 1, 2, 3] 1
     \<lparr> vi = 0, CNT_next = 0, mu_next = 0, underflow = 0, epsilon = 0, mm = 1,
       c1_buff = [0], zz = [0, 0, 0], e_tau = [0, 0, 0] \<rparr>
   = Inr \<lparr> vi = 0, CNT_next = 3 / 4, mu_next = 0, underflow = 1, epsilon = 0, mm = 1,
       c1_buff = [0], zz = [0, 0, 0], e_tau = [0, 0, 0] \<rparr>
   \<and> (0::nat) \<noteq> 1
   \<and> (0::real) - (1 / of_int 4 + (- 1 / 20 * 0 + 0)) < 0
   \<and> (1::real) / of_int 4 + (- 1 / 20 * 0 + 0) \<noteq> 0"
proof -
  have ev: "NDA_iter 1 4 0 (- 1 / 20) (- 1 / 400) [0, 1, 2, 3] 1
     \<lparr> vi = 0, CNT_next = 0, mu_next = 0, underflow = 0, epsilon = 0, mm = 1,
       c1_buff = [0], zz = [0, 0, 0], e_tau = [0, 0, 0] \<rparr>
   = Inr \<lparr> vi = 0, CNT_next = 3 / 4, mu_next = 0, underflow = 1, epsilon = 0, mm = 1,
       c1_buff = [0], zz = [0, 0, 0], e_tau = [0, 0, 0] \<rparr>"
    by (simp add: NDA_iter_def)
  from NDA_counter_update [where I_ord = 1 and Ns = 4 and L = 0 and ?K1.0 = "- 1 / 20"
     and ?K2.0 = "- 1 / 400" and z = "[0, 1, 2, 3]" and nn = 1 and s =
     "\<lparr> vi = 0, CNT_next = 0, mu_next = 0, underflow = 0, epsilon = 0, mm = 1,
       c1_buff = [0], zz = [0, 0, 0], e_tau = [0, 0, 0] \<rparr>"]
  show ?thesis unfolding ev by simp
qed

lemma NDA_iter_arrays:
  assumes "NDA_iter I_ord Ns L K1 K2 z nn s = Inr s'"
  shows "underflow s \<noteq> 1 \<and> zz s' = zz s \<and> e_tau s' = e_tau s \<and> mm s' = mm s
         \<or> underflow s = 1
           \<and> (\<exists>z_interp eps buff.
                 NDA_event I_ord Ns L z nn (mu_next s) (c1_buff s) = Inr (z_interp, eps, buff)
                 \<and> mm s < length (zz s)
                 \<and> zz s' = (zz s)[mm s := z_interp]
                 \<and> e_tau s' = (e_tau s)[mm s := eps]
                 \<and> mm s' = mm s + 1)"
proof -
  from assms obtain s1 where
    a: "underflow s \<noteq> 1 \<and> s1 = s
     \<or> underflow s = 1
       \<and> (\<exists>z_interp eps buff.
             NDA_event I_ord Ns L z nn (mu_next s) (c1_buff s) = Inr (z_interp, eps, buff)
             \<and> mm s < length (zz s)
             \<and> s1 = s \<lparr> epsilon := eps, c1_buff := buff, zz := (zz s)[mm s := z_interp],
                          e_tau := (e_tau s)[mm s := eps], mm := mm s + 1 \<rparr>)"
    and b: "CNT_next s - (1 / of_int Ns + (K1 * epsilon s1 + (vi s1 + K2 * epsilon s1))) < 0
         \<and> 1 / of_int Ns + (K1 * epsilon s1 + (vi s1 + K2 * epsilon s1)) \<noteq> 0
         \<and> s' = s1 \<lparr> vi := vi s1 + K2 * epsilon s1,
                      CNT_next := 1 + (CNT_next s
                          - (1 / of_int Ns + (K1 * epsilon s1 + (vi s1 + K2 * epsilon s1)))),
                      underflow := 1,
                      mu_next := CNT_next s
                          / (1 / of_int Ns + (K1 * epsilon s1 + (vi s1 + K2 * epsilon s1))) \<rparr>
         \<or> \<not> CNT_next s - (1 / of_int Ns + (K1 * epsilon s1 + (vi s1 + K2 * epsilon s1))) < 0
         \<and> s' = s1 \<lparr> vi := vi s1 + K2 * epsilon s1,
                      CNT_next := CNT_next s
                          - (1 / of_int Ns + (K1 * epsilon s1 + (vi s1 + K2 * epsilon s1))),
                      underflow := 0, mu_next := mu_next s \<rparr>"
    by (rule NDA_iter_cases)
  from b have k: "zz s' = zz s1" "e_tau s' = e_tau s1" "mm s' = mm s1" by auto
  from a show ?thesis unfolding k by auto
qed

text \<open>
  The arrays after the loop: the slots below \<open>mm\<close> are as before, the events of the
  loop follow from slot \<open>mm\<close> on, and the rest is as before.
\<close>

lemma NDA_loop_arrays:
  assumes "NDA_loop I_ord Ns L K1 K2 z nns s = Inr s'"
    and "length (e_tau s) = length (zz s)"
    and "evs = NDA_events I_ord Ns L K1 K2 z nns s"
  shows "mm s' = mm s + length evs
         \<and> (evs \<noteq> [] \<longrightarrow> mm s + length evs \<le> length (zz s))
         \<and> zz s' = take (mm s) (zz s) @ map fst evs @ drop (mm s + length evs) (zz s)
         \<and> e_tau s' = take (mm s) (e_tau s) @ map snd evs @ drop (mm s + length evs) (e_tau s)"
  using assms
proof (induction nns arbitrary: s evs)
  case Nil
  then show ?case by simp
next
  case (Cons nn nns)
  from Cons.prems(1) obtain s1 where
    i: "NDA_iter I_ord Ns L K1 K2 z nn s = Inr s1"
    and l: "NDA_loop I_ord Ns L K1 K2 z nns s1 = Inr s'"
    by (cases "NDA_iter I_ord Ns L K1 K2 z nn s") simp_all
  define evs1 where "evs1 = NDA_events I_ord Ns L K1 K2 z nns s1"
  from NDA_iter_arrays [OF i]
  consider (coast) "underflow s \<noteq> 1" "zz s1 = zz s" "e_tau s1 = e_tau s" "mm s1 = mm s"
    | (event) z_interp eps buff where "underflow s = 1"
        "NDA_event I_ord Ns L z nn (mu_next s) (c1_buff s) = Inr (z_interp, eps, buff)"
        "mm s < length (zz s)" "zz s1 = (zz s)[mm s := z_interp]"
        "e_tau s1 = (e_tau s)[mm s := eps]" "mm s1 = mm s + 1"
    by blast
  then show ?case
  proof cases
    case coast
    have e: "evs = evs1"
      using Cons.prems(3) i coast(1) by (simp add: evs1_def)
    from coast Cons.prems(2) have len: "length (e_tau s1) = length (zz s1)" by simp
    from Cons.IH [OF l len evs1_def] show ?thesis
      unfolding e coast(2,3,4) .
  next
    case event
    have e: "evs = (z_interp, eps) # evs1"
      using Cons.prems(3) i event(1,2) by (simp add: evs1_def)
    from event Cons.prems(2) have len: "length (e_tau s1) = length (zz s1)" by simp
    note ih = Cons.IH [OF l len evs1_def]
    let ?m = "mm s" and ?k = "length evs1"
    have m: "?m < length (zz s)" "?m < length (e_tau s)"
      using event(3) Cons.prems(2) by simp_all
    have b: "?m + 1 + ?k \<le> length (zz s)"
    proof (cases "evs1 = []")
      case True
      with m show ?thesis by simp
    next
      case False
      with ih have "mm s1 + ?k \<le> length (zz s1)" by blast
      then show ?thesis by (simp add: event)
    qed
    have t: "take (?m + 1) (xs[?m := x]) = take ?m xs @ [x]" if "?m < length xs" for xs :: "'a list" and x
      using that by (simp add: take_Suc_conv_app_nth)
    have d: "drop (?m + 1 + ?k) (xs[?m := x]) = drop (?m + 1 + ?k) xs" for xs :: "'a list" and x
      by simp
    from ih have "mm s' = ?m + 1 + ?k"
      and "zz s' = take (?m + 1) ((zz s)[?m := z_interp]) @ map fst evs1
                   @ drop (?m + 1 + ?k) ((zz s)[?m := z_interp])"
      and "e_tau s' = take (?m + 1) ((e_tau s)[?m := eps]) @ map snd evs1
                   @ drop (?m + 1 + ?k) ((e_tau s)[?m := eps])"
      unfolding event(4,5,6) by blast+
    then show ?thesis
      unfolding e t [OF m(1)] t [OF m(2)] d using b by simp
  qed
qed

lemma NDA_setup_state:
  assumes "NDA_setup z Ns L BnTs zeta = Inr (K1, K2, z', nns, s0)"
  shows "mm s0 = 1 \<and> zz s0 = replicate (length z) 0 \<and> e_tau s0 = replicate (length z) 0"
  using assms by (auto simp: NDA_setup_def Let_def split: if_splits)

lemma NDA_normalize_length: "length (NDA_normalize zs) = length zs"
  by (simp add: NDA_normalize_def)

text \<open>
  C9. When a call of \<open>NDA_symb_sync\<close> comes to the end of its loop after \<open>u \<ge> 1\<close> symbol
  events, the counter \<open>mm\<close> is \<open>1 + u\<close> and both returned arrays have length \<open>u\<close>: their
  first element is the zero the arrays started with (for \<open>zz\<close>: before the division by
  the standard deviation), the following are the interpolants and the timing errors
  of the events in order, and those of the last event are cut off.
\<close>

theorem NDA_symb_sync_outputs:
  assumes "NDA_run z Ns L BnTs zeta I_ord = Inr s"
    and "evs = NDA_run_events z Ns L BnTs zeta I_ord"
    and "1 \<le> length evs"
  shows "mm s = 1 + length evs
         \<and> NDA_sliced s = (0 # butlast (map fst evs), 0 # butlast (map snd evs))
         \<and> NDA_symb_sync z Ns L BnTs zeta I_ord
             = Inr (NDA_normalize (0 # butlast (map fst evs)), 0 # butlast (map snd evs))
         \<and> length (NDA_normalize (0 # butlast (map fst evs))) = length evs
         \<and> length (0 # butlast (map snd evs)) = length evs"
proof -
  from assms(1) obtain K1 K2 z' nns s0 where
    su: "NDA_setup z Ns L BnTs zeta = Inr (K1, K2, z', nns, s0)"
    by (cases "NDA_setup z Ns L BnTs zeta") (auto simp: NDA_run_def)
  from assms(1) su have l: "NDA_loop I_ord Ns L K1 K2 z' nns s0 = Inr s"
    by (simp add: NDA_run_def)
  from assms(2) su have e: "evs = NDA_events I_ord Ns L K1 K2 z' nns s0"
    by (simp add: NDA_run_events_def)
  note s0 = NDA_setup_state [OF su]
  have len0: "length (e_tau s0) = length (zz s0)" using s0 by simp
  define u where "u = length evs"
  define N where "N = length z"
  from assms(3) have ne: "evs \<noteq> []" and u1: "1 \<le> u" by (auto simp: u_def)
  from NDA_loop_arrays [OF l len0 e] ne s0
  have m: "mm s = 1 + u" and b: "1 + u \<le> N"
    and zz: "zz s = take 1 (replicate N 0) @ map fst evs @ drop (1 + u) (replicate N 0)"
    and et: "e_tau s = take 1 (replicate N 0) @ map snd evs @ drop (1 + u) (replicate N 0)"
    by (simp_all add: u_def N_def)
  from b have t1: "take 1 (replicate N (0::'a::zero)) = [0]"
    by (cases N) simp_all
  have lz: "length (zz s) = N" "length (e_tau s) = N"
    using b by (simp_all add: zz et u_def)
  have cut: "py_slice_to xs (- (int N - int (1 + u) + 1)) = take u xs"
    if "length xs = N" for xs :: "'a list"
    using that b by (simp add: py_slice_to_def)
  have tk: "take u (0 # map f evs @ ys) = 0 # butlast (map f evs)"
    for f :: "complex \<times> real \<Rightarrow> 'a::zero" and ys
    using u1 by (cases u) (simp_all add: u_def butlast_conv_take)
  have sl: "NDA_sliced s = (0 # butlast (map fst evs), 0 # butlast (map snd evs))"
    unfolding NDA_sliced_def lz m cut [OF lz(1)] cut [OF lz(2)]
    unfolding zz et t1 by (simp add: tk)
  have "NDA_symb_sync z Ns L BnTs zeta I_ord
             = Inr (NDA_normalize (0 # butlast (map fst evs)), 0 # butlast (map snd evs))"
    by (simp add: NDA_symb_sync_def assms(1) sl)
  moreover have "length (0 # butlast (map snd evs)) = length evs"
    using ne by simp
  ultimately show ?thesis
    using m sl by (simp add: NDA_normalize_length u_def)
qed

lemma Arg_nonneg_real: "0 \<le> x \<Longrightarrow> Arg (complex_of_real x) = 0"
proof (cases "x = 0")
  case True
  then show ?thesis by (simp add: Arg_zero)
next
  case False
  assume "0 \<le> x"
  with False have "sgn (complex_of_real x) = cis 0"
    by (simp add: sgn_eq)
  then show ?thesis by (rule cis_Arg_unique) simp_all
qed

lemma Arg_one: "Arg 1 = 0"
  using Arg_nonneg_real [of 1] by simp

lemma Arg_numeral: "Arg (numeral k) = 0"
  using Arg_nonneg_real [of "numeral k"] by simp

lemma NDA_example_upto: "[1 .. (3::int)] = [1, 2, 3]"
  by (simp add: upto.simps)

lemma NDA_example_run:
  "NDA_run [1, 2, 3] 1 0 (1 / 10) (1 / 2) 1
   = Inr \<lparr> vi = 0, CNT_next = 0, mu_next = 0, underflow = 1, epsilon = 0, mm = 3,
       c1_buff = [4], zz = [0, 1, 2], e_tau = [0, 0, 0] \<rparr>"
  by (simp add: NDA_run_def NDA_setup_def NDA_example_upto NDA_iter_def NDA_event_def
      NDA_interp_def py_get_def Arg_one Arg_numeral numeral_3_eq_3)

lemma NDA_example_run_events:
  "NDA_run_events [1, 2, 3] 1 0 (1 / 10) (1 / 2) 1 = [(1, 0), (2, 0)]"
  by (simp add: NDA_run_events_def NDA_setup_def NDA_example_upto NDA_iter_def NDA_event_def
      NDA_interp_def py_get_def Arg_one Arg_numeral numeral_3_eq_3)

theorem NDA_symb_sync_outputs_witness:
  "NDA_run [1, 2, 3] 1 0 (1 / 10) (1 / 2) 1
     = Inr \<lparr> vi = 0, CNT_next = 0, mu_next = 0, underflow = 1, epsilon = 0, mm = 3,
         c1_buff = [4], zz = [0, 1, 2], e_tau = [0, 0, 0] \<rparr>
   \<and> [(1, 0), (2, 0)] = NDA_run_events [1, 2, 3] 1 0 (1 / 10) (1 / 2) 1
   \<and> 1 \<le> length [(1 :: complex, 0 :: real), (2, 0)]
   \<and> NDA_sliced \<lparr> vi = 0, CNT_next = 0, mu_next = 0, underflow = 1, epsilon = 0, mm = 3,
         c1_buff = [4], zz = [0, 1, 2], e_tau = [0, 0, 0] \<rparr> = ([0, 1], [0, 0])
   \<and> NDA_symb_sync [1, 2, 3] 1 0 (1 / 10) (1 / 2) 1 = Inr (NDA_normalize [0, 1], [0, 0])"
proof -
  have e: "[(1, 0), (2, 0)] = NDA_run_events [1, 2, 3] 1 0 (1 / 10) (1 / 2) 1"
    by (simp add: NDA_example_run_events)
  have l: "1 \<le> length [(1 :: complex, 0 :: real), (2, 0)]" by simp
  from NDA_symb_sync_outputs [OF NDA_example_run e l] NDA_example_run l
  show ?thesis by (simp add: e [symmetric])
qed

subsection \<open>Configuration errors\<close>

lemma NDA_event_unknown_order:
  assumes "I_ord \<noteq> 1" "I_ord \<noteq> 2" "I_ord \<noteq> 3"
  shows "NDA_event I_ord Ns L z nn mu buff = Inl UnboundLocalError"
  using assms by (simp add: NDA_event_def NDA_interp_def)

lemma NDA_iter_unknown_order:
  assumes "I_ord \<noteq> 1" "I_ord \<noteq> 2" "I_ord \<noteq> 3"
  shows "case NDA_iter I_ord Ns L K1 K2 z nn s of
           Inl e \<Rightarrow> (underflow s = 1 \<and> e = UnboundLocalError) \<or> (underflow s \<noteq> 1 \<and> e = NonFinite)
         | Inr s' \<Rightarrow> underflow s \<noteq> 1 \<and> mm s' = mm s \<and> zz s' = zz s \<and> e_tau s' = e_tau s"
proof (cases "underflow s = 1")
  case True
  then show ?thesis
    by (simp add: NDA_iter_def NDA_event_unknown_order [OF assms])
next
  case False
  then show ?thesis
    by (simp add: NDA_iter_def Let_def)
qed

lemma NDA_loop_unknown_order:
  assumes "I_ord \<noteq> 1" "I_ord \<noteq> 2" "I_ord \<noteq> 3"
  shows "case NDA_loop I_ord Ns L K1 K2 z nns s of
           Inl e \<Rightarrow> e = UnboundLocalError \<or> e = NonFinite
         | Inr s' \<Rightarrow> mm s' = mm s \<and> zz s' = zz s \<and> e_tau s' = e_tau s"
proof (induction nns arbitrary: s)
  case Nil
  then show ?case by simp
next
  case (Cons nn nns)
  show ?case
  proof (cases "NDA_iter I_ord Ns L K1 K2 z nn s")
    case (Inl e)
    with NDA_iter_unknown_order [OF assms, where Ns = Ns and L = L and ?K1.0 = K1 and ?K2.0 = K2
        and z = z and nn = nn and s = s] show ?thesis by auto
  next
    case (Inr s1)
    with NDA_iter_unknown_order [OF assms, where Ns = Ns and L = L and ?K1.0 = K1 and ?K2.0 = K2
        and z = z and nn = nn and s = s]
    have k: "mm s1 = mm s" "zz s1 = zz s" "e_tau s1 = e_tau s" by simp_all
    from Cons.IH [where s = s1] show ?thesis
      unfolding NDA_loop.simps Inr sum.case k .
  qed
qed

lemma NDA_symb_sync_unknown_order:
  assumes "I_ord \<noteq> 1" "I_ord \<noteq> 2" "I_ord \<noteq> 3"
  shows "case NDA_symb_sync z Ns L BnTs zeta I_ord of
           Inl e \<Rightarrow> e = ZeroDivisionError \<or> e = ValueError \<or> e = UnboundLocalError \<or> e = NonFinite
         | Inr (zz', e_tau') \<Rightarrow> zz' = [] \<and> e_tau' = []"
proof (cases "NDA_setup z Ns L BnTs zeta")
  case (Inl e)
  then have "e = ZeroDivisionError \<or> e = ValueError"
    by (auto simp: NDA_setup_def Let_def split: if_splits)
  with Inl show ?thesis by (auto simp: NDA_symb_sync_def NDA_run_def)
next
  case (Inr r)
  obtain K1 K2 z' nns s0 where r: "r = (K1, K2, z', nns, s0)" by (cases r) auto
  note s0 = NDA_setup_state [OF Inr [unfolded r]]
  have run: "NDA_run z Ns L BnTs zeta I_ord = NDA_loop I_ord Ns L K1 K2 z' nns s0"
    by (simp add: NDA_run_def Inr r)
  show ?thesis
  proof (cases "NDA_loop I_ord Ns L K1 K2 z' nns s0")
    case (Inl e)
    with NDA_loop_unknown_order [OF assms, where Ns = Ns and L = L and ?K1.0 = K1 and ?K2.0 = K2
        and z = z' and nns = nns and s = s0] show ?thesis
      by (simp add: NDA_symb_sync_def run)
  next
    case s: (Inr s)
    with NDA_loop_unknown_order [OF assms, where Ns = Ns and L = L and ?K1.0 = K1 and ?K2.0 = K2
        and z = z' and nns = nns and s = s0] s0
    have k: "mm s = 1" "zz s = replicate (length z) 0" "e_tau s = replicate (length z) 0"
      by simp_all
    have "NDA_sliced s = ([], [])"
      by (simp add: NDA_sliced_def k py_slice_to_def)
    with s show ?thesis by (simp add: NDA_symb_sync_def run NDA_normalize_def)
  qed
qed

lemma NDA_unknown_order_examples:
  "NDA_symb_sync [1] 1 0 (1 / 10) (1 / 2) 7 = Inr ([], [])"
  "NDA_symb_sync [1, 2, 3] 1 0 (1 / 10) (1 / 2) 7 = Inl UnboundLocalError"
proof -
  have u: "[1 .. (1::int)] = [1]" "[1 .. (3::int)] = [1, 2, 3]" by (simp_all add: upto.simps)
  show "NDA_symb_sync [1] 1 0 (1 / 10) (1 / 2) 7 = Inr ([], [])"
    by (simp add: NDA_symb_sync_def NDA_run_def NDA_setup_def u NDA_iter_def NDA_sliced_def
        py_slice_to_def NDA_normalize_def)
  show "NDA_symb_sync [1, 2, 3] 1 0 (1 / 10) (1 / 2) 7 = Inl UnboundLocalError"
    by (simp add: NDA_symb_sync_def NDA_run_def NDA_setup_def u NDA_iter_def NDA_event_def
        NDA_interp_def numeral_3_eq_3)
qed

lemma pll_filter_vco_unbound:
  "pll_filter_vco loop_type T Kv \<lparr> K = None, tau1 = None, tau2 = None \<rparr> pd_out r
   = Inl UnboundLocalError"
  by (simp add: pll_filter_vco_def)

lemma PLL1_unknown_loop_type:
  assumes "loop_type \<noteq> 1" "loop_type \<noteq> 2" "loop_type \<noteq> 3" and "fs_in \<noteq> 0"
  shows "PLL1 theta fs_in loop_type Kv fn zeta non_lin
         = (if theta = [] then Inr ([], [], []) else Inl UnboundLocalError)"
  using assms
  by (cases theta) (simp_all add: PLL1_def PLL1_parms_def Let_def pll_filter_vco_unbound)

lemma PLL_cbb_unknown_loop_type:
  assumes "loop_type \<noteq> 1" "loop_type \<noteq> 2" "loop_type \<noteq> 3" and "fs_in \<noteq> 0"
  shows "PLL_cbb x fs_in loop_type Kv fn zeta
         = (if x = [] then Inr ([], [], []) else Inl UnboundLocalError)"
  using assms
  by (cases x) (simp_all add: PLL_cbb_def PLL_cbb_parms_def Let_def pll_filter_vco_unbound)

lemma NCO_init_too_wide:
  "64 < nb \<Longrightarrow> NCO_init fcenter fs_in kc_in k0 nb = Inl NotImplementedError"
  by (simp add: NCO_init_def)

lemma DD_loop_unknown_detector:
  assumes "type \<noteq> 0" "type \<noteq> 1" "type \<noteq> 2"
  shows "DD_loop mod_type M type open_loop K1 K2 zs 0 0
         = Inr (zs, map (DD_decision mod_type M) zs,
                replicate (length zs) 0, replicate (length zs) 0)"
proof (induction zs)
  case Nil
  then show ?case by simp
next
  case (Cons z zs)
  have d: "DD_detector type zp a = Inr 0" for zp a
    using assms by (simp add: DD_detector_def)
  have m: "np_mod 0 (2 * pi) = 0" by (simp add: np_mod_def)
  show ?case
    by (simp add: d m Cons.IH)
qed

lemma DD_decision_unsupported:
  assumes "(mod_type = ''MPSK'' \<and> M \<notin> {2, 4} \<and> \<not> 4 < M)
           \<or> (mod_type = ''MQAM'' \<and> M \<notin> {2, 4, 16, 64, 256})"
  shows "DD_decision mod_type M w = 0"
  using assms by (auto simp: DD_decision_def)

lemma DD_loop_zero_decisions:
  assumes d: "\<And>w. DD_decision mod_type M w = 0" and t: "type \<noteq> 2"
  shows "\<exists>zp ep th.
           DD_loop mod_type M type open_loop K1 K2 zs theta0 vi0
             = Inr (zp, replicate (length zs) 0, ep, th)
           \<and> length zp = length zs \<and> length ep = length zs \<and> length th = length zs"
proof (cases "DD_loop mod_type M type open_loop K1 K2 zs theta0 vi0")
  case (Inl e)
  from DD_loop_error [OF Inl] t show ?thesis by simp
next
  case (Inr r)
  obtain zp ah ep th where r: "r = (zp, ah, ep, th)" by (cases r) auto
  note o = DD_loop_outputs [OF Inr [unfolded r]]
  from o have l: "length zp = length zs" "length ah = length zs" "length ep = length zs"
    "length th = length zs" by blast+
  have "ah ! n = 0" if "n < length zs" for n
  proof -
    from o that have "ah ! n = DD_decision mod_type M (zp ! n)" by blast
    then show ?thesis by (simp only: d)
  qed
  with l(2) have "ah = replicate (length zs) 0"
    by (simp add: list_eq_iff_nth_eq)
  with Inr r l show ?thesis by simp
qed

lemma DD_carrier_sync_unknown_order:
  assumes "zeta \<noteq> 0" and "type \<noteq> 2"
    and "(mod_type = ''MPSK'' \<and> M \<notin> {2, 4} \<and> \<not> 4 < M)
         \<or> (mod_type = ''MQAM'' \<and> M \<notin> {2, 4, 16, 64, 256} \<and> 1 < M
             \<and> (z = [] \<or> np_std z \<noteq> 0))"
  shows "\<exists>z_prime e_phi theta_h.
           DD_carrier_sync z M BnTs zeta mod_type type open_loop
             = Inr (z_prime, replicate (length z) 0, e_phi, theta_h)
           \<and> length z_prime = length z \<and> length e_phi = length z
           \<and> length theta_h = length z"
proof -
  let ?K1 = "4 * zeta / (zeta + 1 / (4 * zeta)) * BnTs"
  let ?K2 = "4 / (zeta + 1 / (4 * zeta))\<^sup>2 * BnTs\<^sup>2"
  from assms(3) have d: "DD_decision mod_type M w = 0" for w
    by (intro DD_decision_unsupported) blast
  from assms(3) consider
      (psk) "mod_type = ''MPSK''"
    | (empty) "mod_type = ''MQAM''" "1 < M" "z = []"
    | (qam) "mod_type = ''MQAM''" "1 < M" "z \<noteq> []" "np_std z \<noteq> 0"
    by blast
  then show ?thesis
  proof cases
    case psk
    then have q: "mod_type \<noteq> ''MQAM''" by simp
    show ?thesis
      unfolding DD_carrier_sync_other [OF assms(1) q]
      by (rule DD_loop_zero_decisions [OF d assms(2)])
  next
    case empty
    then have "M \<noteq> 1" by simp
    from DD_carrier_sync_MQAM_stop(2) [OF assms(1) this] empty show ?thesis by simp
  next
    case qam
    define sc where "sc = np_std z * sqrt (3 / (2 * (of_int M - 1)))"
    note run = DD_carrier_sync_MQAM_run [OF assms(1) qam(2,3) sc_def qam(4),
        of BnTs type open_loop]
    from DD_loop_zero_decisions [OF d assms(2), of open_loop ?K1 ?K2
        "map (\<lambda>x. x / of_real sc) z" 0 0]
    obtain zp ep th where
      l: "DD_loop mod_type M type open_loop ?K1 ?K2 (map (\<lambda>x. x / of_real sc) z) 0 0
            = Inr (zp, replicate (length z) 0, ep, th)"
      and n: "length zp = length z" "length ep = length z" "length th = length z"
      by auto
    from run l qam(1) have
      "DD_carrier_sync z M BnTs zeta mod_type type open_loop
         = Inr (map (\<lambda>x. x * of_real sc) zp, replicate (length z) 0, ep, th)"
      by simp
    with n show ?thesis by simp
  qed
qed

lemma DD_carrier_sync_unknown_detector:
  assumes "type \<notin> {0, 1, 2}" and "zeta \<noteq> 0"
    and "mod_type = ''MQAM'' \<longrightarrow> 1 < M \<and> (z = [] \<or> np_std z \<noteq> 0)"
  shows "DD_carrier_sync z M BnTs zeta mod_type type open_loop
         = Inr (z,
                map (DD_decision mod_type M)
                  (if mod_type = ''MQAM''
                   then map (\<lambda>x. x / of_real (np_std z * sqrt (3 / (2 * (of_int M - 1))))) z
                   else z),
                replicate (length z) 0, replicate (length z) 0)"
proof -
  let ?K1 = "4 * zeta / (zeta + 1 / (4 * zeta)) * BnTs"
  let ?K2 = "4 / (zeta + 1 / (4 * zeta))\<^sup>2 * BnTs\<^sup>2"
  from assms(1) have t: "type \<noteq> 0" "type \<noteq> 1" "type \<noteq> 2" by simp_all
  note u = DD_loop_unknown_detector [OF t]
  from assms(3) consider
      (other) "mod_type \<noteq> ''MQAM''"
    | (empty) "mod_type = ''MQAM''" "1 < M" "z = []"
    | (qam) "mod_type = ''MQAM''" "1 < M" "z \<noteq> []" "np_std z \<noteq> 0"
    by blast
  then show ?thesis
  proof cases
    case other
    show ?thesis
      unfolding DD_carrier_sync_other [OF assms(2) other] u using other by simp
  next
    case empty
    then have "M \<noteq> 1" by simp
    from DD_carrier_sync_MQAM_stop(2) [OF assms(2) this] empty show ?thesis by simp
  next
    case qam
    define sc where "sc = np_std z * sqrt (3 / (2 * (of_int M - 1)))"
    note run = DD_carrier_sync_MQAM_run [OF assms(2) qam(2,3) sc_def qam(4),
        of BnTs type open_loop]
    from run have sc0: "sc \<noteq> 0" by blast
    then have unscale: "map (\<lambda>x. x * of_real sc) (map (\<lambda>x. x / of_real sc) z) = z"
      by (simp add: map_idI)
    have "DD_carrier_sync z M BnTs zeta mod_type type open_loop
          = Inr (map (\<lambda>x. x * of_real sc) (map (\<lambda>x. x / of_real sc) z),
                 map (DD_decision mod_type M) (map (\<lambda>x. x / of_real sc) z),
                 replicate (length z) 0, replicate (length z) 0)"
      using run unfolding qam(1) u by simp
    then show ?thesis
      unfolding unscale using qam(1) by (simp add: sc_def)
  qed
qed

lemma np_std_example: "np_std [1, - 1] = 1"
  by (simp add: np_std_def)

text \<open>
  C2, as the code has it for the oscillator and for \<open>DD_carrier_sync\<close>. A bit width
  above 64 makes the constructor of the oscillator raise \<open>NotImplementedError\<close>.
  \<open>DD_carrier_sync\<close> (with \<open>zeta \<noteq> 0\<close> and, for \<open>MQAM\<close>, with \<open>M > 1\<close> and an input that is
  empty or has a standard deviation other than zero) raises nothing on an unsupported
  order or detector type:
  \<^item> with an order that the modulation does not support (\<open>MPSK\<close>: none of 2, 4 or above
    4; \<open>MQAM\<close>: none of 2, 4, 16, 64, 256) and a detector type other than 2, it
    returns four arrays of the length of the input, every decision in \<open>a_hat\<close> being
    zero;
  \<^item> with a detector type other than 0, 1, 2 it returns the input as \<open>z_prime\<close>, the
    decisions on the input (scaled for \<open>MQAM\<close>) as \<open>a_hat\<close>, and zero for every phase
    error and every phase estimate.
\<close>

theorem configuration_errors:
  "(64 < nb \<longrightarrow> NCO_init fcenter f_s kc0 k0 nb = Inl NotImplementedError)
   \<and> (zeta \<noteq> 0 \<and> type \<noteq> 2
        \<and> ((mod_type = ''MPSK'' \<and> M \<notin> {2, 4} \<and> \<not> 4 < M)
            \<or> (mod_type = ''MQAM'' \<and> M \<notin> {2, 4, 16, 64, 256} \<and> 1 < M
                \<and> (z = [] \<or> np_std z \<noteq> 0))) \<longrightarrow>
        (\<exists>z_prime e_phi theta_h.
           DD_carrier_sync z M BnTs zeta mod_type type open_loop
             = Inr (z_prime, replicate (length z) 0, e_phi, theta_h)
           \<and> length z_prime = length z \<and> length e_phi = length z
           \<and> length theta_h = length z))
   \<and> (type' \<notin> {0, 1, 2} \<and> zeta \<noteq> 0
        \<and> (mod_type' = ''MQAM'' \<longrightarrow> 1 < M' \<and> (z = [] \<or> np_std z \<noteq> 0)) \<longrightarrow>
        DD_carrier_sync z M' BnTs zeta mod_type' type' open_loop
        = Inr (z,
               map (DD_decision mod_type' M')
                 (if mod_type' = ''MQAM''
                  then map (\<lambda>x. x / of_real (np_std z * sqrt (3 / (2 * (of_int M' - 1))))) z
                  else z),
               replicate (length z) 0, replicate (length z) 0))"
proof (intro conjI impI)
  assume "64 < nb"
  then show "NCO_init fcenter f_s kc0 k0 nb = Inl NotImplementedError"
    by (rule NCO_init_too_wide)
next
  assume a: "zeta \<noteq> 0 \<and> type \<noteq> 2
        \<and> ((mod_type = ''MPSK'' \<and> M \<notin> {2, 4} \<and> \<not> 4 < M)
            \<or> (mod_type = ''MQAM'' \<and> M \<notin> {2, 4, 16, 64, 256} \<and> 1 < M
                \<and> (z = [] \<or> np_std z \<noteq> 0)))"
  then have m: "zeta \<noteq> 0" "type \<noteq> 2"
    "(mod_type = ''MPSK'' \<and> M \<notin> {2, 4} \<and> \<not> 4 < M)
     \<or> (mod_type = ''MQAM'' \<and> M \<notin> {2, 4, 16, 64, 256} \<and> 1 < M
         \<and> (z = [] \<or> np_std z \<noteq> 0))"
    by blast+
  show "\<exists>z_prime e_phi theta_h.
           DD_carrier_sync z M BnTs zeta mod_type type open_loop
             = Inr (z_prime, replicate (length z) 0, e_phi, theta_h)
           \<and> length z_prime = length z \<and> length e_phi = length z
           \<and> length theta_h = length z"
    by (rule DD_carrier_sync_unknown_order [OF m])
next
  assume "type' \<notin> {0, 1, 2} \<and> zeta \<noteq> 0
        \<and> (mod_type' = ''MQAM'' \<longrightarrow> 1 < M' \<and> (z = [] \<or> np_std z \<noteq> 0))"
  then have t: "type' \<notin> {0, 1, 2}" "zeta \<noteq> 0"
    "mod_type' = ''MQAM'' \<longrightarrow> 1 < M' \<and> (z = [] \<or> np_std z \<noteq> 0)"
    by blast+
  show "DD_carrier_sync z M' BnTs zeta mod_type' type' open_loop
        = Inr (z,
               map (DD_decision mod_type' M')
                 (if mod_type' = ''MQAM''
                  then map (\<lambda>x. x / of_real (np_std z * sqrt (3 / (2 * (of_int M' - 1))))) z
                  else z),
               replicate (length z) 0, replicate (length z) 0)"
    by (rule DD_carrier_sync_unknown_detector [OF t])
qed

theorem configuration_errors_witness:
  "(64::int) < 65 \<and> NCO_init 1 100 1 0 65 = Inl NotImplementedError
   \<and> (1 / 2 :: real) \<noteq> 0 \<and> (0::int) \<noteq> 2 \<and> (3::int) \<notin> {2, 4} \<and> \<not> 4 < (3::int)
   \<and> DD_carrier_sync [1, - 1] 3 (1 / 10) (1 / 2) ''MPSK'' 0 False
       = Inr ([1, - 1], [0, 0], [0, 0], [0, 0])
   \<and> (7::int) \<notin> {0, 1, 2} \<and> 1 < (3::int) \<and> np_std [1, - 1] \<noteq> 0
   \<and> DD_carrier_sync [1, - 1] 3 (1 / 10) (1 / 2) ''MQAM'' 7 False
       = Inr ([1, - 1], [0, 0], [0, 0], [0, 0])"
proof -
  have d: "DD_carrier_sync [1, - 1] 3 (1 / 10) (1 / 2) ''MPSK'' 0 False
       = Inr ([1, - 1], [0, 0], [0, 0], [0, 0])"
    by (simp add: DD_carrier_sync_def DD_decision_def DD_detector_def np_mod_def)
  from configuration_errors [where nb = 65 and fcenter = 1 and f_s = 100 and ?kc0.0 = 1
      and ?k0.0 = 0 and zeta = "1 / 2" and z = "[1, - 1]" and BnTs = "1 / 10" and M = 3
      and type = 0 and mod_type = "''MPSK''" and open_loop = False
      and type' = 7 and mod_type' = "''MQAM''" and M' = 3] d np_std_example
  show ?thesis by (simp add: DD_decision_def)
qed

text \<open>
  C2, as stated, fails for \<open>DD_carrier_sync\<close>: with the unsupported order \<open>M = 3\<close> it
  returns output, the decision being the zero the array started with.
\<close>

theorem DD_carrier_sync_unsupported_M:
  "DD_carrier_sync [1] 3 (1 / 10) (1 / 2) ''MPSK'' 0 False = Inr ([1], [0], [0], [0])"
  by (simp add: DD_carrier_sync_def DD_decision_def DD_detector_def np_mod_def)

end
